theory Spec2Isabelle
  imports Main "HOL-Library.Word"
begin

section \<open>Solidity values and failures\<close>

text \<open>
  The contracts are written for Solidity 0.8: \<^verbatim>\<open>uint256\<close> arithmetic is checked, so
  an addition or multiplication whose mathematical result does not fit in 256 bits
  aborts the call with \<^verbatim>\<open>Panic(0x11)\<close>, and a failed \<^verbatim>\<open>require\<close> aborts it with
  \<^verbatim>\<open>Error(string)\<close>. A call that aborts leaves the storage and the event log as they
  were before it. Every division of the source is by a non-zero literal, so it cannot
  raise \<^verbatim>\<open>Panic(0x12)\<close>; on words \<open>div\<close> is the unsigned, truncating division of the
  EVM.
\<close>

type_synonym uint256 = "256 word"
type_synonym address = "160 word"

datatype error = Revert string | Panic nat

definition bind_result :: "error + 'a \<Rightarrow> ('a \<Rightarrow> error + 'b) \<Rightarrow> error + 'b" where
  "bind_result r f = (case r of Inl e \<Rightarrow> Inl e | Inr x \<Rightarrow> f x)"

definition checked_mul :: "uint256 \<Rightarrow> uint256 \<Rightarrow> error + uint256" where
  "checked_mul a b = (if unat a * unat b < 2 ^ 256 then Inr (a * b) else Inl (Panic 17))"

definition checked_add :: "uint256 \<Rightarrow> uint256 \<Rightarrow> error + uint256" where
  "checked_add a b = (if unat a + unat b < 2 ^ 256 then Inr (a + b) else Inl (Panic 17))"

text \<open>The failures of the specification's taxonomy, as the messages the source gives.\<close>

definition InvalidInput :: error where
  "InvalidInput = Revert ''Client ID cannot be empty''"

definition LengthMismatch :: error where
  "LengthMismatch = Revert ''Input arrays must have the same length''"

definition NotFound :: error where
  "NotFound = Revert ''No assessment found for this client ID''"

definition Unauthorized :: error where
  "Unauthorized = Revert ''Only contract owner can perform this action''"

definition ZeroOwner :: error where
  "ZeroOwner = Revert ''New owner cannot be zero address''"

section \<open>The plain contract: RiskControl.sol\<close>

record RiskParameters =
  incomeMultiplier :: uint256
  riskThreshold :: uint256

record AssessmentResult =
  creditLimit :: uint256
  riskScore :: uint256
  approved :: bool
  clientId :: string
  timestamp :: uint256

datatype event =
    AssessmentPerformed string uint256 uint256 bool uint256
  | BatchAssessmentPerformed nat uint256
  | ParametersUpdated uint256

text \<open>
  The storage of the contract and the log of the events it has emitted. The mapping
  \<^verbatim>\<open>assessmentResults\<close> is total, as in Solidity: a key that was never written reads as
  the all-zero record. Keys and the identifiers of the index are compared through
  \<^verbatim>\<open>keccak256\<close> in the source; the model compares the strings themselves (the hash is
  taken to be free of collisions).
\<close>

record RiskControl =
  owner :: address
  riskParameters :: RiskParameters
  assessmentResults :: "string \<Rightarrow> AssessmentResult"
  allClientIds :: "string list"
  events :: "event list"

definition zero_result :: AssessmentResult where
  "zero_result = \<lparr>creditLimit = 0, riskScore = 0, approved = False, clientId = [], timestamp = 0\<rparr>"

definition constructor :: "address \<Rightarrow> RiskControl" where
  "constructor sender =
     \<lparr>owner = sender,
      riskParameters = \<lparr>incomeMultiplier = 2, riskThreshold = 50\<rparr>,
      assessmentResults = (\<lambda>_. zero_result),
      allClientIds = [],
      events = []\<rparr>"

text \<open>The linear scan of the index, returning at the first hit.\<close>

fun clientIdExists :: "string \<Rightarrow> string list \<Rightarrow> bool" where
  "clientIdExists cid [] = False"
| "clientIdExists cid (x # xs) = (if x = cid then True else clientIdExists cid xs)"

text \<open>
  \<^verbatim>\<open>calculateRiskScore\<close>, with its two local values \<^verbatim>\<open>ageFactor\<close> and
  \<^verbatim>\<open>incomeFactor\<close> as functions of their own. The product \<^verbatim>\<open>_age * 40\<close> is a checked
  multiplication, evaluated only on the branch where \<^verbatim>\<open>_age > 40\<close> is false.
\<close>

definition ageFactor :: "uint256 \<Rightarrow> error + uint256" where
  "ageFactor age =
     (if age > 40 then Inr 40
      else bind_result (checked_mul age 40) (\<lambda>p. Inr (p div 40)))"

definition incomeFactor :: "uint256 \<Rightarrow> uint256" where
  "incomeFactor annualIncome =
     (let incomeInDollars = annualIncome div 10 ^ 6
      in if incomeInDollars div 1000 > 60 then 60 else incomeInDollars div 1000)"

definition calculateRiskScore :: "uint256 \<Rightarrow> uint256 \<Rightarrow> error + uint256" where
  "calculateRiskScore age annualIncome =
     bind_result (ageFactor age) (\<lambda>a. checked_add a (incomeFactor annualIncome))"

text \<open>
  \<^verbatim>\<open>assessRisk\<close>; the first argument is \<^verbatim>\<open>block.timestamp\<close>. The result is the new
  state with the returned triple \<open>(creditLimit, riskScore, approved)\<close>.
\<close>

definition assessRisk ::
  "uint256 \<Rightarrow> uint256 \<Rightarrow> uint256 \<Rightarrow> string \<Rightarrow> RiskControl
     \<Rightarrow> error + (RiskControl \<times> uint256 \<times> uint256 \<times> bool)" where
  "assessRisk now age annualIncome cid s =
     (if \<not> length cid > 0 then Inl (Revert ''Client ID cannot be empty'')
      else
        bind_result (calculateRiskScore age annualIncome) (\<lambda>score.
          let ok = (score \<ge> riskThreshold (riskParameters s)) in
          bind_result (if ok then checked_mul (annualIncome div 12)
                                    (incomeMultiplier (riskParameters s))
                       else Inr 0) (\<lambda>limit.
            let s1 = s\<lparr>assessmentResults := (assessmentResults s)(cid :=
                         \<lparr>creditLimit = limit, riskScore = score, approved = ok,
                          clientId = cid, timestamp = now\<rparr>)\<rparr>;
                s2 = (if \<not> clientIdExists cid (allClientIds s1)
                      then s1\<lparr>allClientIds := allClientIds s1 @ [cid]\<rparr> else s1);
                s3 = s2\<lparr>events := events s2 @ [AssessmentPerformed cid limit score ok now]\<rparr>
            in Inr (s3, limit, score, ok))))"

text \<open>
  The loop of \<^verbatim>\<open>batchAssessRisk\<close> over the indices in order, on the three arrays zipped
  (they have one length when the loop is entered). Each item is the external call
  \<^verbatim>\<open>this.assessRisk\<close> under \<^verbatim>\<open>try\<close>: when it aborts, whatever the reason, its effects
  are undone, the \<^verbatim>\<open>catch\<close> block continues with the next index and the counter stays.
  The counter is a natural number: an array in memory has fewer than \<open>2^256\<close> elements,
  so the checked increment \<^verbatim>\<open>successCount++\<close> cannot overflow.
\<close>

fun batchLoop ::
  "uint256 \<Rightarrow> (uint256 \<times> uint256 \<times> string) list \<Rightarrow> RiskControl \<times> nat \<Rightarrow> RiskControl \<times> nat" where
  "batchLoop now [] (s, successCount) = (s, successCount)"
| "batchLoop now ((age, income, cid) # items) (s, successCount) =
     (case assessRisk now age income cid s of
        Inl e \<Rightarrow> batchLoop now items (s, successCount)
      | Inr (s', r) \<Rightarrow> batchLoop now items (s', successCount + 1))"

definition batchAssessRisk ::
  "uint256 \<Rightarrow> uint256 list \<Rightarrow> uint256 list \<Rightarrow> string list \<Rightarrow> RiskControl
     \<Rightarrow> error + (RiskControl \<times> nat)" where
  "batchAssessRisk now ages incomes clientIds s =
     (if \<not> (length ages = length incomes \<and> length incomes = length clientIds)
      then Inl (Revert ''Input arrays must have the same length'')
      else
        (case batchLoop now (zip ages (zip incomes clientIds)) (s, 0) of
           (s', successCount) \<Rightarrow>
             Inr (s'\<lparr>events := events s' @ [BatchAssessmentPerformed successCount now]\<rparr>,
                  successCount)))"

definition getAssessmentResult ::
  "string \<Rightarrow> RiskControl \<Rightarrow> error + (uint256 \<times> uint256 \<times> bool \<times> uint256)" where
  "getAssessmentResult cid s =
     (if \<not> length cid > 0 then Inl (Revert ''Client ID cannot be empty'')
      else
        let result = assessmentResults s cid in
        if \<not> length (clientId result) > 0
        then Inl (Revert ''No assessment found for this client ID'')
        else Inr (creditLimit result, riskScore result, approved result, timestamp result))"

definition getBatchAssessmentResults :: "string list \<Rightarrow> RiskControl \<Rightarrow> AssessmentResult list" where
  "getBatchAssessmentResults clientIds s = map (assessmentResults s) clientIds"

definition getAllClientIds :: "RiskControl \<Rightarrow> string list" where
  "getAllClientIds s = allClientIds s"

definition getAssessmentCount :: "RiskControl \<Rightarrow> nat" where
  "getAssessmentCount s = length (allClientIds s)"

text \<open>The two gated operations; \<open>sender\<close> is \<^verbatim>\<open>msg.sender\<close>, checked by \<^verbatim>\<open>onlyOwner\<close>.\<close>

definition updateRiskParameters ::
  "address \<Rightarrow> uint256 \<Rightarrow> uint256 \<Rightarrow> uint256 \<Rightarrow> RiskControl \<Rightarrow> error + RiskControl" where
  "updateRiskParameters sender now newMultiplier newThreshold s =
     (if \<not> sender = owner s then Inl (Revert ''Only contract owner can perform this action'')
      else Inr (s\<lparr>riskParameters := \<lparr>incomeMultiplier = newMultiplier,
                                      riskThreshold = newThreshold\<rparr>,
                  events := events s @ [ParametersUpdated now]\<rparr>))"

definition getRiskParameters :: "RiskControl \<Rightarrow> RiskParameters" where
  "getRiskParameters s = riskParameters s"

definition transferOwnership :: "address \<Rightarrow> address \<Rightarrow> RiskControl \<Rightarrow> error + RiskControl" where
  "transferOwnership sender newOwner s =
     (if \<not> sender = owner s then Inl (Revert ''Only contract owner can perform this action'')
      else if \<not> newOwner \<noteq> 0 then Inl (Revert ''New owner cannot be zero address'')
      else Inr (s\<lparr>owner := newOwner\<rparr>))"

definition getOwner :: "RiskControl \<Rightarrow> address" where
  "getOwner s = owner s"

subsection \<open>Transactions\<close>

text \<open>
  A transaction is one external call of a state-changing function, with its sender and
  the timestamp of its block. A transaction that aborts changes nothing.
\<close>

datatype call =
    AssessRisk uint256 uint256 string
  | BatchAssessRisk "uint256 list" "uint256 list" "string list"
  | UpdateRiskParameters uint256 uint256
  | TransferOwnership address

fun exec :: "address \<Rightarrow> uint256 \<Rightarrow> call \<Rightarrow> RiskControl \<Rightarrow> error + RiskControl" where
  "exec sender now (AssessRisk age income cid) s =
     bind_result (assessRisk now age income cid s) (\<lambda>(s', r). Inr s')"
| "exec sender now (BatchAssessRisk ages incomes cids) s =
     bind_result (batchAssessRisk now ages incomes cids s) (\<lambda>(s', n). Inr s')"
| "exec sender now (UpdateRiskParameters m t) s = updateRiskParameters sender now m t s"
| "exec sender now (TransferOwnership a) s = transferOwnership sender a s"

definition transact :: "address \<times> uint256 \<times> call \<Rightarrow> RiskControl \<Rightarrow> RiskControl" where
  "transact tx s = (case tx of (sender, now, c) \<Rightarrow>
     (case exec sender now c s of Inl e \<Rightarrow> s | Inr s' \<Rightarrow> s'))"

definition run :: "(address \<times> uint256 \<times> call) list \<Rightarrow> RiskControl \<Rightarrow> RiskControl" where
  "run txs s = fold transact txs s"

subsection \<open>Notions used to state the properties\<close>

text \<open>The values a call returns, without the state.\<close>

definition returned :: "error + (RiskControl \<times> 'a) \<Rightarrow> error + 'a" where
  "returned r = (case r of Inl e \<Rightarrow> Inl e | Inr (s', x) \<Rightarrow> Inr x)"

text \<open>
  The record an assessment stores, from the parameters in force, the timestamp and the
  arguments of the call: the score formula, the comparison with the threshold, and the
  monthly income times the multiplier for an approved client.
\<close>

definition resultRecord ::
  "RiskParameters \<Rightarrow> uint256 \<Rightarrow> uint256 \<Rightarrow> uint256 \<Rightarrow> string \<Rightarrow> AssessmentResult" where
  "resultRecord p now age income cid =
     (let score = min age 40 + min (income div 10 ^ 6 div 1000) 60;
          ok = (riskThreshold p \<le> score)
      in \<lparr>creditLimit = (if ok then (income div 12) * incomeMultiplier p else 0),
          riskScore = score, approved = ok, clientId = cid, timestamp = now\<rparr>)"

text \<open>
  The credit limit of an assessment is representable: when the client is approved, the
  monthly income times the multiplier is below \<open>2^256\<close>, so the checked product does
  not abort.
\<close>

definition creditLimitFits :: "RiskParameters \<Rightarrow> uint256 \<Rightarrow> uint256 \<Rightarrow> bool" where
  "creditLimitFits p age income \<longleftrightarrow>
     (riskThreshold p \<le> min age 40 + min (income div 10 ^ 6 div 1000) 60
        \<longrightarrow> unat (income div 12) * unat (incomeMultiplier p) < 2 ^ 256)"

text \<open>
  The relation of the specification's data model between a stored record, the parameters
  and the income argument of the assessment.
\<close>

definition recordConsistent :: "RiskParameters \<Rightarrow> uint256 \<Rightarrow> AssessmentResult \<Rightarrow> bool" where
  "recordConsistent p income r \<longleftrightarrow>
     approved r = (riskScore r \<ge> riskThreshold p)
     \<and> (if approved r
        then unat (creditLimit r) = (unat income div 12) * unat (incomeMultiplier p)
        else creditLimit r = 0)"

text \<open>
  An item of a batch that \<^verbatim>\<open>assessRisk\<close> accepts under the parameters \<open>p\<close>: its client
  identifier is not empty and its credit limit is representable.
\<close>

definition accepted :: "RiskParameters \<Rightarrow> uint256 \<times> uint256 \<times> string \<Rightarrow> bool" where
  "accepted p item \<longleftrightarrow>
     (case item of (age, income, cid) \<Rightarrow> cid \<noteq> [] \<and> creditLimitFits p age income)"

text \<open>The event a successful assessment of an item emits.\<close>

definition assessmentEvent :: "RiskParameters \<Rightarrow> uint256 \<Rightarrow> uint256 \<times> uint256 \<times> string \<Rightarrow> event" where
  "assessmentEvent p now item =
     (case item of (age, income, cid) \<Rightarrow>
        AssessmentPerformed cid (creditLimit (resultRecord p now age income cid))
          (riskScore (resultRecord p now age income cid))
          (approved (resultRecord p now age income cid)) now)"

text \<open>
  What holds of the index and the records in every reachable state: the index has no
  duplicate and no empty identifier, and the \<^verbatim>\<open>clientId\<close> field of the record stored
  under a key is that key when the key is in the index, and empty otherwise.
\<close>

definition ledgerInvariant :: "RiskControl \<Rightarrow> bool" where
  "ledgerInvariant s \<longleftrightarrow>
     distinct (allClientIds s) \<and> [] \<notin> set (allClientIds s)
     \<and> (\<forall>cid. clientId (assessmentResults s cid) = (if cid \<in> set (allClientIds s) then cid else []))"

text \<open>
  A history variable beside the state: for each client identifier, the income argument
  and the parameters in force of the assessment that last wrote its record. It is
  updated exactly where \<^verbatim>\<open>assessRisk\<close> succeeds, alone or as an item of a batch.
\<close>

type_synonym written = "string \<Rightarrow> uint256 \<times> RiskParameters"

fun batchLoopWritten ::
  "uint256 \<Rightarrow> (uint256 \<times> uint256 \<times> string) list \<Rightarrow> RiskControl \<times> written \<Rightarrow> RiskControl \<times> written" where
  "batchLoopWritten now [] (s, w) = (s, w)"
| "batchLoopWritten now ((age, income, cid) # items) (s, w) =
     (case assessRisk now age income cid s of
        Inl e \<Rightarrow> batchLoopWritten now items (s, w)
      | Inr (s', r) \<Rightarrow> batchLoopWritten now items (s', w(cid := (income, riskParameters s))))"

fun noteWritten :: "uint256 \<Rightarrow> call \<Rightarrow> RiskControl \<Rightarrow> written \<Rightarrow> written" where
  "noteWritten now (AssessRisk age income cid) s w =
     (case assessRisk now age income cid s of
        Inl e \<Rightarrow> w
      | Inr r \<Rightarrow> w(cid := (income, riskParameters s)))"
| "noteWritten now (BatchAssessRisk ages incomes cids) s w =
     (if length ages = length incomes \<and> length incomes = length cids
      then snd (batchLoopWritten now (zip ages (zip incomes cids)) (s, w)) else w)"
| "noteWritten now (UpdateRiskParameters m t) s w = w"
| "noteWritten now (TransferOwnership a) s w = w"

definition transactWritten ::
  "address \<times> uint256 \<times> call \<Rightarrow> RiskControl \<times> written \<Rightarrow> RiskControl \<times> written" where
  "transactWritten tx sw = (case (tx, sw) of ((sender, now, c), (s, w)) \<Rightarrow>
     (transact (sender, now, c) s, noteWritten now c s w))"

definition runWritten ::
  "(address \<times> uint256 \<times> call) list \<Rightarrow> RiskControl \<times> written \<Rightarrow> RiskControl \<times> written" where
  "runWritten txs sw = fold transactWritten txs sw"

definition noneWritten :: written where
  "noneWritten = (\<lambda>_. (0, \<lparr>incomeMultiplier = 0, riskThreshold = 0\<rparr>))"

text \<open>Every written record is consistent with what the history variable holds for it.\<close>

definition recordsAsWritten :: "RiskControl \<Rightarrow> written \<Rightarrow> bool" where
  "recordsAsWritten s w \<longleftrightarrow>
     (\<forall>cid. clientId (assessmentResults s cid) \<noteq> []
        \<longrightarrow> recordConsistent (snd (w cid)) (fst (w cid)) (assessmentResults s cid))"

section \<open>The confidential contract: RiskControlFHE.sol\<close>

text \<open>
  An encrypted value is modelled by the value it decrypts to: \<^verbatim>\<open>euint32\<close> is a 32-bit
  word, \<^verbatim>\<open>ebool\<close> a truth value, and the inputs \<^verbatim>\<open>inEuint32\<close> are the ciphertexts of
  32-bit words. What the contract computes on ciphertexts is then what this model
  computes on their cleartexts.
\<close>

type_synonym euint32 = "32 word"
type_synonym ebool = bool

text \<open>
  The library \<^verbatim>\<open>@fhevm/solidity/lib/FHE.sol\<close> is imported by the contract and is not
  part of the sources. Its primitives are modelled from the arithmetic backend of the
  specification, each from encrypted operands to an encrypted result. The results are
  32-bit values: a sum or product is taken modulo \<open>2^32\<close>, since no operation on
  ciphertexts can abort on what they hold.
\<close>

text \<open>Modelled from the spec: \<^verbatim>\<open>FHE.asEuint32\<close> is missing; it encrypts a public constant.\<close>

definition FHE_asEuint32 :: "nat \<Rightarrow> euint32" where
  "FHE_asEuint32 n = of_nat n"

text \<open>Modelled from the spec: \<^verbatim>\<open>FHE.add\<close> is missing; the backend's \<open>add\<close>.\<close>

definition FHE_add :: "euint32 \<Rightarrow> euint32 \<Rightarrow> euint32" where
  "FHE_add a b = a + b"

text \<open>Modelled from the spec: \<^verbatim>\<open>FHE.mul\<close> is missing; the backend's \<open>multiply\<close>.\<close>

definition FHE_mul :: "euint32 \<Rightarrow> euint32 \<Rightarrow> euint32" where
  "FHE_mul a b = a * b"

text \<open>
  Modelled from the spec: \<^verbatim>\<open>FHE.div\<close> is missing; the backend's \<open>divide\<close>, with the
  truncation rule of the plain backend.
\<close>

definition FHE_div :: "euint32 \<Rightarrow> euint32 \<Rightarrow> euint32" where
  "FHE_div a b = a div b"

text \<open>
  Modelled from the spec: \<^verbatim>\<open>FHE.gt\<close> is missing; the backend's \<open>greater-than\<close>, which
  returns an encrypted boolean.
\<close>

definition FHE_gt :: "euint32 \<Rightarrow> euint32 \<Rightarrow> ebool" where
  "FHE_gt a b = (a > b)"

text \<open>
  Modelled from the spec: \<^verbatim>\<open>FHE.cmux\<close> is missing; the backend's \<open>select\<close>, equivalent
  to \<open>cond ? a : b\<close>.
\<close>

definition FHE_cmux :: "ebool \<Rightarrow> euint32 \<Rightarrow> euint32 \<Rightarrow> euint32" where
  "FHE_cmux c a b = (if c then a else b)"

text \<open>
  Modelled from the spec: \<^verbatim>\<open>FHE.sealoutput\<close> is missing; the backend's reveal for an
  authorized party, a sealed payload that decrypts to the value.
\<close>

definition FHE_sealoutput :: "'a \<Rightarrow> 'a" where
  "FHE_sealoutput x = x"

record EncryptedRiskParameters =
  encIncomeMultiplier :: euint32
  encRiskThreshold :: euint32

record EncryptedAssessment =
  encCreditLimit :: euint32
  encRiskScore :: euint32
  encApproved :: ebool
  encClientId :: string
  encTimestamp :: uint256

datatype encEvent =
    EncAssessmentPerformed string euint32 euint32 ebool uint256
  | EncBatchAssessmentPerformed nat uint256
  | EncParametersUpdated uint256

record FHERC =
  fheOwner :: address
  fheRiskParameters :: EncryptedRiskParameters
  encryptedAssessments :: "string \<Rightarrow> EncryptedAssessment"
  fheAllClientIds :: "string list"
  fheEvents :: "encEvent list"

definition zero_encrypted :: EncryptedAssessment where
  "zero_encrypted = \<lparr>encCreditLimit = 0, encRiskScore = 0, encApproved = False,
                      encClientId = [], encTimestamp = 0\<rparr>"

definition constructorFHE :: "address \<Rightarrow> FHERC" where
  "constructorFHE sender =
     \<lparr>fheOwner = sender,
      fheRiskParameters = \<lparr>encIncomeMultiplier = FHE_asEuint32 2,
                           encRiskThreshold = FHE_asEuint32 50\<rparr>,
      encryptedAssessments = (\<lambda>_. zero_encrypted),
      fheAllClientIds = [],
      fheEvents = []\<rparr>"

definition calculateEncryptedRiskScore :: "euint32 \<Rightarrow> euint32 \<Rightarrow> euint32" where
  "calculateEncryptedRiskScore encryptedAge encryptedIncome =
     (let ageFactor = FHE_cmux (FHE_gt encryptedAge (FHE_asEuint32 40))
                        (FHE_asEuint32 40)
                        (FHE_div (FHE_mul encryptedAge (FHE_asEuint32 40)) (FHE_asEuint32 40));
          incomeInDollars = FHE_div encryptedIncome (FHE_asEuint32 (10 ^ 6));
          incomeFactor = FHE_cmux
                           (FHE_gt (FHE_div incomeInDollars (FHE_asEuint32 1000)) (FHE_asEuint32 60))
                           (FHE_asEuint32 60)
                           (FHE_div incomeInDollars (FHE_asEuint32 1000))
      in FHE_add ageFactor incomeFactor)"

definition assessRiskEncrypted ::
  "uint256 \<Rightarrow> euint32 \<Rightarrow> euint32 \<Rightarrow> string \<Rightarrow> FHERC
     \<Rightarrow> error + (FHERC \<times> euint32 \<times> euint32 \<times> ebool)" where
  "assessRiskEncrypted now encryptedAge encryptedIncome cid s =
     (if \<not> length cid > 0 then Inl (Revert ''Client ID cannot be empty'')
      else
        let encryptedRiskScore = calculateEncryptedRiskScore encryptedAge encryptedIncome;
            encryptedApproved = FHE_gt encryptedRiskScore (encRiskThreshold (fheRiskParameters s));
            product = FHE_mul (FHE_div encryptedIncome (FHE_asEuint32 12))
                        (encIncomeMultiplier (fheRiskParameters s));
            encryptedCreditLimit = FHE_cmux encryptedApproved product (FHE_asEuint32 0);
            s1 = s\<lparr>encryptedAssessments := (encryptedAssessments s)(cid :=
                     \<lparr>encCreditLimit = encryptedCreditLimit, encRiskScore = encryptedRiskScore,
                      encApproved = encryptedApproved, encClientId = cid, encTimestamp = now\<rparr>)\<rparr>;
            s2 = (if \<not> clientIdExists cid (fheAllClientIds s1)
                  then s1\<lparr>fheAllClientIds := fheAllClientIds s1 @ [cid]\<rparr> else s1);
            s3 = s2\<lparr>fheEvents := fheEvents s2 @
                     [EncAssessmentPerformed cid (FHE_sealoutput encryptedCreditLimit)
                        (FHE_sealoutput encryptedRiskScore) (FHE_sealoutput encryptedApproved) now]\<rparr>
        in Inr (s3, encryptedCreditLimit, encryptedRiskScore, encryptedApproved))"

definition updateRiskParametersEncrypted ::
  "address \<Rightarrow> uint256 \<Rightarrow> euint32 \<Rightarrow> euint32 \<Rightarrow> FHERC \<Rightarrow> error + FHERC" where
  "updateRiskParametersEncrypted sender now encryptedMultiplier encryptedThreshold s =
     (if \<not> sender = fheOwner s then Inl (Revert ''Only contract owner can perform this action'')
      else Inr (s\<lparr>fheRiskParameters := \<lparr>encIncomeMultiplier = encryptedMultiplier,
                                         encRiskThreshold = encryptedThreshold\<rparr>,
                  fheEvents := fheEvents s @ [EncParametersUpdated now]\<rparr>))"

subsection \<open>Decryption\<close>

text \<open>
  Decrypting a 32-bit value gives the number it holds, read as a \<^verbatim>\<open>uint256\<close> for the
  comparison with the plain contract; decrypting a state decrypts its parameters, its
  records and the payloads of its events.
\<close>

definition decrypt :: "euint32 \<Rightarrow> uint256" where
  "decrypt x = ucast x"

definition decryptParameters :: "EncryptedRiskParameters \<Rightarrow> RiskParameters" where
  "decryptParameters p = \<lparr>incomeMultiplier = decrypt (encIncomeMultiplier p),
                          riskThreshold = decrypt (encRiskThreshold p)\<rparr>"

definition decryptAssessment :: "EncryptedAssessment \<Rightarrow> AssessmentResult" where
  "decryptAssessment r = \<lparr>creditLimit = decrypt (encCreditLimit r),
                          riskScore = decrypt (encRiskScore r),
                          approved = encApproved r,
                          clientId = encClientId r,
                          timestamp = encTimestamp r\<rparr>"

fun decryptEvent :: "encEvent \<Rightarrow> event" where
  "decryptEvent (EncAssessmentPerformed cid l sc ok now) =
     AssessmentPerformed cid (decrypt l) (decrypt sc) ok now"
| "decryptEvent (EncBatchAssessmentPerformed n now) = BatchAssessmentPerformed n now"
| "decryptEvent (EncParametersUpdated now) = ParametersUpdated now"

definition decryptState :: "FHERC \<Rightarrow> RiskControl" where
  "decryptState s =
     \<lparr>owner = fheOwner s,
      riskParameters = decryptParameters (fheRiskParameters s),
      assessmentResults = (\<lambda>cid. decryptAssessment (encryptedAssessments s cid)),
      allClientIds = fheAllClientIds s,
      events = map decryptEvent (fheEvents s)\<rparr>"

definition decryptOutcome ::
  "error + (FHERC \<times> euint32 \<times> euint32 \<times> ebool) \<Rightarrow> error + (RiskControl \<times> uint256 \<times> uint256 \<times> bool)" where
  "decryptOutcome r = (case r of
       Inl e \<Rightarrow> Inl e
     | Inr (s', l, sc, ok) \<Rightarrow> Inr (decryptState s', decrypt l, decrypt sc, ok))"

section \<open>Basic facts\<close>

lemma bind_result_simps [simp]:
  "bind_result (Inl e) f = Inl e"
  "bind_result (Inr x) f = f x"
  by (simp_all add: bind_result_def)

lemma clientIdExists_iff: "clientIdExists cid xs \<longleftrightarrow> cid \<in> set xs"
  by (induction xs) auto

section \<open>The risk score\<close>

lemma age_times_40:
  assumes "\<not> 40 < (age::uint256)"
  shows "checked_mul age 40 = Inr (age * 40) \<and> (age * 40) div 40 = age"
proof -
  from assms have le: "unat age \<le> 40"
    by (simp add: not_less word_le_nat_alt)
  then have small: "unat age * unat (40::uint256) < 2 ^ 256"
    by simp
  then have m: "checked_mul age 40 = Inr (age * 40)"
    by (simp add: checked_mul_def)
  from small have "unat (age * 40) = unat age * 40"
    by (simp add: unat_mult_lem [THEN iffD1])
  then have "unat ((age * 40) div 40) = unat age"
    by (simp add: unat_div)
  then have "(age * 40) div 40 = age"
    by (simp add: word_unat_eq_iff)
  with m show ?thesis by simp
qed

lemma ageFactor_min: "ageFactor age = Inr (min age 40)"
  by (auto simp: ageFactor_def age_times_40 min_def)

lemma incomeFactor_min: "incomeFactor income = min (income div 10 ^ 6 div 1000) 60"
  by (auto simp: incomeFactor_def Let_def min_def)

lemma unat_min_word: "unat (min (a::uint256) b) = min (unat a) (unat b)"
  by (simp add: min_def word_le_nat_alt)

lemma unat_ageFactor: "unat (min (age::uint256) 40) = min (unat age) 40"
  by (simp add: unat_min_word)

lemma unat_incomeFactor:
  "unat (min ((income::uint256) div 10 ^ 6 div 1000) 60) = min (unat income div 10 ^ 6 div 1000) 60"
  by (simp add: unat_min_word unat_div)

lemma factor_sum_small:
  "unat (min (age::uint256) 40) + unat (min ((income::uint256) div 10 ^ 6 div 1000) 60) \<le> 100"
  unfolding unat_ageFactor unat_incomeFactor by simp

lemma calculateRiskScore_total:
  "calculateRiskScore age income = Inr (min age 40 + min (income div 10 ^ 6 div 1000) 60)"
proof -
  have "unat (min age 40) + unat (min (income div 10 ^ 6 div 1000) 60) < 2 ^ 256"
    by (rule le_less_trans [OF factor_sum_small]) simp
  then show ?thesis
    by (simp add: calculateRiskScore_def ageFactor_min incomeFactor_min checked_add_def)
qed

lemma unat_score:
  "unat (min (age::uint256) 40 + min (income div 10 ^ 6 div 1000) 60)
     = min (unat age) 40 + min (unat income div 10 ^ 6 div 1000) 60"
proof -
  have "unat (min age 40) + unat (min (income div 10 ^ 6 div 1000) 60) < 2 ^ LENGTH(256)"
    by (rule le_less_trans [OF factor_sum_small]) simp
  then have "unat (min age 40 + min (income div 10 ^ 6 div 1000) 60)
      = unat (min age 40) + unat (min (income div 10 ^ 6 div 1000) 60)"
    by (simp only: unat_add_lem)
  then show ?thesis
    by (simp only: unat_ageFactor unat_incomeFactor)
qed

lemma ageFactor_cases: "ageFactor age = Inr (if age \<le> 40 then age else 40)"
  by (simp add: ageFactor_min min_def)

text \<open>
  Claim C4. For every age and income, \<^verbatim>\<open>calculateRiskScore\<close> returns (it never aborts)
  \<open>min(age, 40) + min((income / 10^6) / 1000, 60)\<close>, every division truncating: the age
  factor is the age itself up to 40 and 40 beyond, the income factor is capped at 60, and
  the score lies between 0 and 100.
\<close>

theorem calculateRiskScore_formula:
  "ageFactor age = Inr (if age \<le> 40 then age else 40)
   \<and> incomeFactor income = min (income div 10 ^ 6 div 1000) 60
   \<and> (\<exists>score. calculateRiskScore age income = Inr score
        \<and> score = min age 40 + min (income div 10 ^ 6 div 1000) 60
        \<and> unat score = min (unat age) 40 + min (unat income div 10 ^ 6 div 1000) 60
        \<and> 0 \<le> unat score \<and> unat score \<le> 100)"
proof (intro conjI exI)
  show "ageFactor age = Inr (if age \<le> 40 then age else 40)"
    by (rule ageFactor_cases)
  show "incomeFactor income = min (income div 10 ^ 6 div 1000) 60"
    by (rule incomeFactor_min)
  show "calculateRiskScore age income = Inr (min age 40 + min (income div 10 ^ 6 div 1000) 60)"
    by (rule calculateRiskScore_total)
  show "min age 40 + min (income div 10 ^ 6 div 1000) 60 = min age 40 + min (income div 10 ^ 6 div 1000) 60"
    by (rule refl)
  show "unat (min age 40 + min (income div 10 ^ 6 div 1000) 60)
      = min (unat age) 40 + min (unat income div 10 ^ 6 div 1000) 60"
    by (rule unat_score)
  show "0 \<le> unat (min age 40 + min (income div 10 ^ 6 div 1000) 60)"
    by simp
  show "unat (min age 40 + min (income div 10 ^ 6 div 1000) 60) \<le> 100"
    unfolding unat_score by simp
qed

section \<open>Single assessments\<close>

lemma assessRisk_empty: "assessRisk now age income [] s = Inl InvalidInput"
  by (simp add: assessRisk_def InvalidInput_def)

lemma assessRisk_Inr_iff:
  "assessRisk now age income cid s = Inr (s', r) \<longleftrightarrow>
     cid \<noteq> [] \<and> creditLimitFits (riskParameters s) age income
     \<and> r = (creditLimit (resultRecord (riskParameters s) now age income cid),
            riskScore (resultRecord (riskParameters s) now age income cid),
            approved (resultRecord (riskParameters s) now age income cid))
     \<and> s' = s\<lparr>assessmentResults := (assessmentResults s)(cid :=
                   resultRecord (riskParameters s) now age income cid),
               allClientIds := (if cid \<in> set (allClientIds s) then allClientIds s
                                else allClientIds s @ [cid]),
               events := events s @ [AssessmentPerformed cid
                   (creditLimit (resultRecord (riskParameters s) now age income cid))
                   (riskScore (resultRecord (riskParameters s) now age income cid))
                   (approved (resultRecord (riskParameters s) now age income cid)) now]\<rparr>"
  by (auto simp: assessRisk_def calculateRiskScore_total Let_def checked_mul_def
        clientIdExists_iff creditLimitFits_def resultRecord_def split: if_splits)

lemma assessRisk_stores_resultRecord:
  assumes "assessRisk now age income cid s = Inr (s', limit, score, ok)"
  shows "assessmentResults s' cid = resultRecord (riskParameters s) now age income cid
     \<and> resultRecord (riskParameters s) now age income cid
          = \<lparr>creditLimit = limit, riskScore = score, approved = ok, clientId = cid,
             timestamp = now\<rparr>"
  using assms by (auto simp: assessRisk_Inr_iff resultRecord_def Let_def)

lemma assessRisk_succeeds_iff:
  "(\<exists>r. assessRisk now age income cid s = Inr r) \<longleftrightarrow>
     cid \<noteq> [] \<and> creditLimitFits (riskParameters s) age income"
  by (auto simp: assessRisk_Inr_iff)

lemma assessRisk_fails_iff:
  "(\<exists>e. assessRisk now age income cid s = Inl e) \<longleftrightarrow>
     \<not> (cid \<noteq> [] \<and> creditLimitFits (riskParameters s) age income)"
proof -
  have "(\<exists>e. assessRisk now age income cid s = Inl e) \<longleftrightarrow>
      \<not> (\<exists>r. assessRisk now age income cid s = Inr r)"
    by (cases "assessRisk now age income cid s") auto
  then show ?thesis
    by (simp only: assessRisk_succeeds_iff)
qed

lemma monthly_times_small:
  assumes "unat (m::uint256) \<le> 12"
  shows "unat ((income::uint256) div 12) * unat m < 2 ^ 256"
proof -
  have "unat (income div 12) * unat m \<le> (unat income div 12) * 12"
    using assms by (simp add: unat_div)
  also have "\<dots> \<le> unat income"
    by simp
  also have "\<dots> < 2 ^ 256"
    using unsigned_less [of income, where 'a = nat] by simp
  finally show ?thesis .
qed

lemma creditLimitFits_small: "unat (incomeMultiplier p) \<le> 12 \<Longrightarrow> creditLimitFits p age income"
  unfolding creditLimitFits_def by (intro impI monthly_times_small)

text \<open>
  Claim C3, as the code has it. With the default parameters, the call
  \<open>assessRisk(35, 50_000_000_000, "client-1")\<close> returns the score 85, the approval
  \<open>true\<close> and the credit limit \<open>(50_000_000_000 / 12) * 2 = 8_333_333_332\<close>: the
  monthly income is taken from the income argument as it is passed, in its six-decimal
  unit, and the division truncates.
\<close>

theorem example_assessment:
  assumes "riskParameters s = \<lparr>incomeMultiplier = 2, riskThreshold = 50\<rparr>"
  shows "returned (assessRisk now 35 50000000000 ''client-1'' s) = Inr (8333333332, 85, True)"
  using assms
  by (simp add: returned_def assessRisk_def calculateRiskScore_total checked_mul_def Let_def)

theorem example_assessment_witness:
  "riskParameters (constructor 1) = \<lparr>incomeMultiplier = 2, riskThreshold = 50\<rparr>
   \<and> returned (assessRisk 0 35 50000000000 ''client-1'' (constructor 1))
       = Inr (8333333332, 85, True)"
  using example_assessment [of "constructor 1" 0]
  by (simp add: constructor_def)

text \<open>The credit limit of that call is not 8332.\<close>

theorem example_assessment_counterexample:
  "returned (assessRisk 0 35 50000000000 ''client-1'' (constructor 1)) \<noteq> Inr (8332, 85, True)"
  by (simp add: returned_def assessRisk_def calculateRiskScore_total checked_mul_def Let_def
      constructor_def)

text \<open>
  Claim C10. Under the default parameters \<^verbatim>\<open>assessRisk\<close> fails exactly when the client
  identifier is empty, for every age and income: the age factor and the score never
  abort (the product \<open>age * 40\<close> is taken only for \<open>age \<le> 40\<close>), and the checked product
  \<open>(income / 12) * 2\<close> fits in 256 bits.
\<close>

theorem default_parameters_sole_failure:
  assumes "riskParameters s = \<lparr>incomeMultiplier = 2, riskThreshold = 50\<rparr>"
  shows "((\<exists>e. assessRisk now age income cid s = Inl e) \<longleftrightarrow> cid = [])
     \<and> (cid = [] \<longrightarrow> assessRisk now age income cid s = Inl InvalidInput)
     \<and> (\<exists>a. ageFactor age = Inr a)
     \<and> (\<exists>score. calculateRiskScore age income = Inr score)
     \<and> checked_mul (income div 12) 2 = Inr ((income div 12) * 2)"
proof -
  have fits: "unat (income div 12) * unat (2::uint256) < 2 ^ 256"
    by (rule monthly_times_small) simp
  then have mul: "checked_mul (income div 12) 2 = Inr ((income div 12) * 2)"
    by (simp add: checked_mul_def)
  have "creditLimitFits (riskParameters s) age income"
    by (rule creditLimitFits_small) (simp add: assms)
  then have "(\<exists>e. assessRisk now age income cid s = Inl e) \<longleftrightarrow> cid = []"
    by (simp add: assessRisk_fails_iff)
  then show ?thesis
    using mul by (simp add: ageFactor_min calculateRiskScore_total assessRisk_empty)
qed

theorem default_parameters_sole_failure_witness:
  "riskParameters (constructor 1) = \<lparr>incomeMultiplier = 2, riskThreshold = 50\<rparr>
   \<and> (\<exists>e. assessRisk 0 (- 1) (- 1) [] (constructor 1) = Inl e)
   \<and> (\<nexists>e. assessRisk 0 (- 1) (- 1) ''c'' (constructor 1) = Inl e)"
  using default_parameters_sole_failure [of "constructor 1" 0 "- 1" "- 1" "[]"]
    default_parameters_sole_failure [of "constructor 1" 0 "- 1" "- 1" "''c''"]
  by (simp add: constructor_def)

section \<open>Calls rejected as a whole\<close>

text \<open>
  Claim C8. When the caller is not the owner, \<^verbatim>\<open>updateRiskParameters\<close> fails with
  \<open>Unauthorized\<close>, whatever its arguments, and the transaction changes nothing: the
  parameters read afterwards are those held before, and the event log has no new entry.
\<close>

theorem updateRiskParameters_unauthorized:
  assumes "sender \<noteq> owner s"
  shows "updateRiskParameters sender now m t s = Inl Unauthorized
     \<and> transact (sender, now, UpdateRiskParameters m t) s = s
     \<and> getRiskParameters (transact (sender, now, UpdateRiskParameters m t) s) = getRiskParameters s
     \<and> events (transact (sender, now, UpdateRiskParameters m t) s) = events s"
  using assms by (simp add: updateRiskParameters_def Unauthorized_def transact_def)

theorem updateRiskParameters_unauthorized_witness:
  "(2::address) \<noteq> owner (constructor 1)
   \<and> updateRiskParameters 2 7 3 90 (constructor 1) = Inl Unauthorized
   \<and> getRiskParameters (transact (2, 7, UpdateRiskParameters 3 90) (constructor 1))
       = \<lparr>incomeMultiplier = 2, riskThreshold = 50\<rparr>"
  using updateRiskParameters_unauthorized [of 2 "constructor 1" 7 3 90]
  by (simp add: constructor_def getRiskParameters_def)

text \<open>
  Claim C7. When the three arrays do not all have the same length, \<^verbatim>\<open>batchAssessRisk\<close>
  fails with \<open>LengthMismatch\<close> and the transaction leaves the state as it was: no
  record is written, the index gains no entry and no event is emitted.
\<close>

theorem batch_length_mismatch:
  assumes "\<not> (length ages = length incomes \<and> length incomes = length cids)"
  shows "batchAssessRisk now ages incomes cids s = Inl LengthMismatch
     \<and> transact (sender, now, BatchAssessRisk ages incomes cids) s = s
     \<and> assessmentResults (transact (sender, now, BatchAssessRisk ages incomes cids) s)
         = assessmentResults s
     \<and> allClientIds (transact (sender, now, BatchAssessRisk ages incomes cids) s) = allClientIds s
     \<and> events (transact (sender, now, BatchAssessRisk ages incomes cids) s) = events s"
  using assms by (simp add: batchAssessRisk_def LengthMismatch_def transact_def)

theorem batch_length_mismatch_witness:
  "\<not> (length [30, 41 :: uint256] = length [5 :: uint256] \<and> length [5 :: uint256] = length [''a'', ''b''])
   \<and> batchAssessRisk 7 [30, 41] [5] [''a'', ''b''] (constructor 1) = Inl LengthMismatch
   \<and> transact (1, 7, BatchAssessRisk [30, 41] [5] [''a'', ''b'']) (constructor 1) = constructor 1"
  using batch_length_mismatch [of "[30, 41]" "[5]" "[''a'', ''b'']" 7 "constructor 1" 1]
  by simp

section \<open>Invariants of the reachable states\<close>

lemma batchLoop_preserves:
  assumes step: "\<And>age income cid s s' r.
      P s \<Longrightarrow> assessRisk now age income cid s = Inr (s', r) \<Longrightarrow> P s'"
    and "P s"
  shows "P (fst (batchLoop now items (s, n)))"
  using \<open>P s\<close>
proof (induction items arbitrary: s n)
  case Nil
  then show ?case by simp
next
  case (Cons item items)
  obtain age income cid where item: "item = (age, income, cid)"
    by (cases item)
  show ?case
  proof (cases "assessRisk now age income cid s")
    case (Inl e)
    then show ?thesis
      using Cons by (simp add: item)
  next
    case (Inr sr)
    obtain s' r where sr: "sr = (s', r)"
      by (cases sr)
    have "P s'"
      using step [OF Cons.prems] Inr sr by simp
    then show ?thesis
      using Cons.IH Inr sr by (simp add: item)
  qed
qed

lemma exec_preserves:
  assumes assess: "\<And>now age income cid s s' r.
      P s \<Longrightarrow> assessRisk now age income cid s = Inr (s', r) \<Longrightarrow> P s'"
    and ev: "\<And>s es. P s \<Longrightarrow> P (s\<lparr>events := es\<rparr>)"
    and par: "\<And>s p. P s \<Longrightarrow> P (s\<lparr>riskParameters := p\<rparr>)"
    and own: "\<And>s a. P s \<Longrightarrow> P (s\<lparr>owner := a\<rparr>)"
    and "P s" and "exec sender now c s = Inr s'"
  shows "P s'"
proof (cases c)
  case (AssessRisk age income cid)
  then show ?thesis
    using assms(5,6) assess [of s now age income cid]
    by (cases "assessRisk now age income cid s") auto
next
  case (BatchAssessRisk ages incomes cids)
  have "P (fst (batchLoop now (zip ages (zip incomes cids)) (s, 0)))"
    by (rule batchLoop_preserves [where P = P, OF assess \<open>P s\<close>])
  then show ?thesis
    using assms(6) BatchAssessRisk
    by (auto simp: batchAssessRisk_def ev split: if_splits prod.splits)
next
  case (UpdateRiskParameters m t)
  then show ?thesis
    using assms(5,6) par [THEN ev]
    by (auto simp: updateRiskParameters_def split: if_splits)
next
  case (TransferOwnership a)
  then show ?thesis
    using assms(5,6) own
    by (auto simp: transferOwnership_def split: if_splits)
qed

lemma transact_preserves:
  assumes assess: "\<And>now age income cid s s' r.
      P s \<Longrightarrow> assessRisk now age income cid s = Inr (s', r) \<Longrightarrow> P s'"
    and ev: "\<And>s es. P s \<Longrightarrow> P (s\<lparr>events := es\<rparr>)"
    and par: "\<And>s p. P s \<Longrightarrow> P (s\<lparr>riskParameters := p\<rparr>)"
    and own: "\<And>s a. P s \<Longrightarrow> P (s\<lparr>owner := a\<rparr>)"
    and "P s"
  shows "P (transact tx s)"
proof -
  obtain sender now c where tx: "tx = (sender, now, c)"
    by (cases tx)
  show ?thesis
  proof (cases "exec sender now c s")
    case (Inl e)
    then show ?thesis
      using \<open>P s\<close> by (simp add: transact_def tx)
  next
    case (Inr s')
    have "P s'"
      by (rule exec_preserves [where P = P, OF assess ev par own \<open>P s\<close> Inr])
    then show ?thesis
      using Inr by (simp add: transact_def tx)
  qed
qed

lemma run_preserves:
  assumes assess: "\<And>now age income cid s s' r.
      P s \<Longrightarrow> assessRisk now age income cid s = Inr (s', r) \<Longrightarrow> P s'"
    and ev: "\<And>s es. P s \<Longrightarrow> P (s\<lparr>events := es\<rparr>)"
    and par: "\<And>s p. P s \<Longrightarrow> P (s\<lparr>riskParameters := p\<rparr>)"
    and own: "\<And>s a. P s \<Longrightarrow> P (s\<lparr>owner := a\<rparr>)"
    and "P s"
  shows "P (run txs s)"
  using \<open>P s\<close> unfolding run_def
proof (induction txs arbitrary: s)
  case Nil
  then show ?case by simp
next
  case (Cons tx txs)
  have "P (transact tx s)"
    by (rule transact_preserves [where P = P, OF assess ev par own Cons.prems])
  then show ?case
    using Cons.IH by simp
qed

lemma ledgerInvariant_constructor: "ledgerInvariant (constructor sender)"
  by (simp add: ledgerInvariant_def constructor_def zero_result_def)

lemma ledgerInvariant_assessRisk:
  assumes "ledgerInvariant s" and "assessRisk now age income cid s = Inr (s', r)"
  shows "ledgerInvariant s'"
  using assms
  by (auto simp: assessRisk_Inr_iff ledgerInvariant_def resultRecord_def Let_def)

lemma ledgerInvariant_run:
  assumes "ledgerInvariant s"
  shows "ledgerInvariant (run txs s)"
proof (rule run_preserves [where P = ledgerInvariant])
  show "ledgerInvariant s" by (rule assms)
next
  fix now age income cid s s' r
  assume "ledgerInvariant s" and "assessRisk now age income cid s = Inr (s', r)"
  then show "ledgerInvariant s'" by (rule ledgerInvariant_assessRisk)
qed (simp_all add: ledgerInvariant_def)

lemma ledgerInvariant_reachable: "ledgerInvariant (run txs (constructor sender))"
  by (rule ledgerInvariant_run [OF ledgerInvariant_constructor])

lemma count_list_distinct: "distinct xs \<Longrightarrow> x \<in> set xs \<Longrightarrow> count_list xs x = 1"
  by (induction xs) (auto simp: count_list_0_iff)

text \<open>
  Claim C9. In every reachable state, each identifier that \<^verbatim>\<open>getAllClientIds\<close> returns is
  non-empty and its stored record carries that identifier in its \<^verbatim>\<open>clientId\<close> field, so
  \<^verbatim>\<open>getAssessmentResult\<close> succeeds on it; and the \<^verbatim>\<open>clientId\<close> field of a stored record
  is non-empty exactly for the identifiers of the index.
\<close>

theorem index_entries_have_records:
  assumes "s = run txs (constructor deployer)"
  shows "(\<forall>cid \<in> set (getAllClientIds s).
            clientId (assessmentResults s cid) = cid \<and> cid \<noteq> []
            \<and> getAssessmentResult cid s =
                Inr (creditLimit (assessmentResults s cid), riskScore (assessmentResults s cid),
                     approved (assessmentResults s cid), timestamp (assessmentResults s cid)))
     \<and> (\<forall>cid. clientId (assessmentResults s cid) \<noteq> [] \<longleftrightarrow> cid \<in> set (getAllClientIds s))"
proof -
  have "ledgerInvariant s"
    unfolding assms by (rule ledgerInvariant_reachable)
  then show ?thesis
    by (auto simp: ledgerInvariant_def getAllClientIds_def getAssessmentResult_def Let_def)
qed

theorem index_entries_have_records_witness:
  "getAllClientIds (run [(1, 7, AssessRisk 35 50000000000 ''client-1'')] (constructor 1)) = [''client-1'']
   \<and> getAssessmentResult ''client-1'' (run [(1, 7, AssessRisk 35 50000000000 ''client-1'')] (constructor 1))
       = Inr (8333333332, 85, True, 7)"
proof -
  let ?s = "run [(1, 7, AssessRisk 35 50000000000 ''client-1'')] (constructor 1)"
  have ids: "getAllClientIds ?s = [''client-1'']"
    by (simp add: run_def transact_def assessRisk_Inr_iff [THEN iffD2] getAllClientIds_def constructor_def assessRisk_def calculateRiskScore_total checked_mul_def Let_def)
  have rec: "assessmentResults ?s ''client-1'' = \<lparr>creditLimit = 8333333332, riskScore = 85, approved = True, clientId = ''client-1'', timestamp = 7\<rparr>"
    by (simp add: run_def transact_def constructor_def assessRisk_def calculateRiskScore_total checked_mul_def Let_def)
  from index_entries_have_records [of ?s "[(1, 7, AssessRisk 35 50000000000 ''client-1'')]" 1]
  have "\<forall>cid \<in> set (getAllClientIds ?s). getAssessmentResult cid ?s =
                Inr (creditLimit (assessmentResults ?s cid), riskScore (assessmentResults ?s cid),
                     approved (assessmentResults ?s cid), timestamp (assessmentResults ?s cid))"
    by blast
  then have "getAssessmentResult ''client-1'' ?s =
                Inr (creditLimit (assessmentResults ?s ''client-1''), riskScore (assessmentResults ?s ''client-1''),
                     approved (assessmentResults ?s ''client-1''), timestamp (assessmentResults ?s ''client-1''))"
    unfolding ids by simp
  then show ?thesis
    unfolding rec using ids by simp
qed


lemma indexed_run:
  assumes "cid \<in> set (allClientIds s)"
  shows "cid \<in> set (allClientIds (run txs s))"
proof (rule run_preserves [where P = "\<lambda>s. cid \<in> set (allClientIds s)"])
  show "cid \<in> set (allClientIds s)" by (rule assms)
next
  fix now age income cid' s s' r
  assume "cid \<in> set (allClientIds s)" and "assessRisk now age income cid' s = Inr (s', r)"
  then show "cid \<in> set (allClientIds s')"
    by (auto simp: assessRisk_Inr_iff)
qed simp_all

text \<open>
  Claim C5. Take a reachable state, a successful assessment of a client, any further
  transactions, and a second successful assessment of the same client. The second call
  leaves the index as it was, holding that identifier exactly once, and replaces the
  record: \<^verbatim>\<open>getAssessmentResult\<close> returns what the second call returned, with the second
  call's timestamp, which is what the second call's arguments give under the parameters
  then in force, with nothing of the first call.
\<close>

theorem second_assessment_overwrites:
  assumes "s0 = run txs (constructor deployer)"
    and "assessRisk t1 age1 income1 cid s0 = Inr (s1, r1)"
    and "s2 = run txs' s1"
    and "assessRisk t2 age2 income2 cid s2 = Inr (s3, limit2, score2, ok2)"
  shows "count_list (getAllClientIds s3) cid = 1
     \<and> getAllClientIds s3 = getAllClientIds s2
     \<and> getAssessmentResult cid s3 = Inr (limit2, score2, ok2, t2)
     \<and> assessmentResults s3 cid = \<lparr>creditLimit = limit2, riskScore = score2, approved = ok2,
           clientId = cid, timestamp = t2\<rparr>
     \<and> assessmentResults s3 cid = resultRecord (riskParameters s2) t2 age2 income2 cid"
proof -
  have "ledgerInvariant s0"
    unfolding assms(1) by (rule ledgerInvariant_reachable)
  then have "ledgerInvariant s1"
    using assms(2) by (rule ledgerInvariant_assessRisk)
  then have "ledgerInvariant s2"
    unfolding assms(3) by (rule ledgerInvariant_run)
  then have inv3: "ledgerInvariant s3"
    using assms(4) by (rule ledgerInvariant_assessRisk)
  have "cid \<in> set (allClientIds s1)"
    using assms(2) by (auto simp: assessRisk_Inr_iff)
  then have known: "cid \<in> set (allClientIds s2)"
    unfolding assms(3) by (rule indexed_run)
  have same: "allClientIds s3 = allClientIds s2" and nonempty: "cid \<noteq> []"
    using assms(4) known by (auto simp: assessRisk_Inr_iff)
  note stored = assessRisk_stores_resultRecord [OF assms(4)]
  have "count_list (allClientIds s3) cid = 1"
    using inv3 known by (simp add: ledgerInvariant_def count_list_distinct same)
  moreover have "getAssessmentResult cid s3 = Inr (limit2, score2, ok2, t2)"
    using nonempty stored by (simp add: getAssessmentResult_def Let_def)
  ultimately show ?thesis
    using stored same by (simp add: getAllClientIds_def)
qed

lemma run_Nil: "run [] s = s"
  by (simp add: run_def)

theorem second_assessment_overwrites_witness:
  "(\<exists>s1 r1 s3.
      assessRisk 7 20 0 ''a'' (run [] (constructor 1)) = Inr (s1, r1)
      \<and> assessRisk 9 35 50000000000 ''a'' (run [] s1) = Inr (s3, 8333333332, 85, True)
      \<and> count_list (getAllClientIds s3) ''a'' = 1
      \<and> getAssessmentResult ''a'' s3 = Inr (8333333332, 85, True, 9))"
proof -
  obtain s1 r1 where first: "assessRisk 7 20 0 ''a'' (run [] (constructor 1)) = Inr (s1, r1)"
    using assessRisk_succeeds_iff [of 7 20 0 "''a''" "run [] (constructor 1)"]
    by (auto simp: creditLimitFits_def run_Nil constructor_def)
  then have par: "riskParameters s1 = \<lparr>incomeMultiplier = 2, riskThreshold = 50\<rparr>"
    by (auto simp: assessRisk_Inr_iff run_Nil constructor_def)
  obtain s3 r3 where second: "assessRisk 9 35 50000000000 ''a'' (run [] s1) = Inr (s3, r3)"
    using assessRisk_succeeds_iff [of 9 35 50000000000 "''a''" "run [] s1"]
    by (auto simp: creditLimitFits_def run_Nil par)
  then have "r3 = (8333333332, 85, True)"
    by (simp add: assessRisk_Inr_iff run_Nil par resultRecord_def)
  with second have second': "assessRisk 9 35 50000000000 ''a'' (run [] s1) = Inr (s3, 8333333332, 85, True)"
    by simp
  from second_assessment_overwrites [OF refl first refl second']
  show ?thesis
    using first second' by blast
qed

section \<open>Records and the parameters they were written under\<close>

lemma resultRecord_consistent:
  assumes "creditLimitFits p age income"
  shows "recordConsistent p income (resultRecord p now age income cid)"
proof (cases "riskThreshold p \<le> min age 40 + min (income div 10 ^ 6 div 1000) 60")
  case True
  with assms have "unat (income div 12) * unat (incomeMultiplier p) < 2 ^ LENGTH(256)"
    by (simp add: creditLimitFits_def)
  then have "unat ((income div 12) * incomeMultiplier p) = unat (income div 12) * unat (incomeMultiplier p)"
    by (simp only: unat_mult_lem)
  then show ?thesis
    using True by (simp add: recordConsistent_def resultRecord_def Let_def unat_div)
next
  case False
  then show ?thesis
    by (simp add: recordConsistent_def resultRecord_def Let_def)
qed

lemma recordsAsWritten_assessRisk:
  assumes "recordsAsWritten s w" and "assessRisk now age income cid s = Inr (s', r)"
  shows "recordsAsWritten s' (w(cid := (income, riskParameters s)))"
  using assms resultRecord_consistent [of "riskParameters s" age income now cid]
  by (auto simp: assessRisk_Inr_iff recordsAsWritten_def)

lemma fst_batchLoopWritten:
  "fst (batchLoopWritten now items (s, w)) = fst (batchLoop now items (s, n))"
proof (induction items arbitrary: s w n)
  case Nil
  then show ?case by simp
next
  case (Cons item items)
  obtain age income cid where item: "item = (age, income, cid)"
    by (cases item)
  show ?case
    using Cons.IH by (auto simp: item split: sum.splits)
qed

lemma recordsAsWritten_batchLoopWritten:
  assumes "recordsAsWritten s w" and "batchLoopWritten now items (s, w) = (s', w')"
  shows "recordsAsWritten s' w'"
  using assms
proof (induction items arbitrary: s w)
  case Nil
  then show ?case by simp
next
  case (Cons item items)
  obtain age income cid where item: "item = (age, income, cid)"
    by (cases item)
  show ?case
  proof (cases "assessRisk now age income cid s")
    case (Inl e)
    then show ?thesis
      using Cons by (simp add: item)
  next
    case (Inr sr)
    obtain s1 r where sr: "sr = (s1, r)"
      by (cases sr)
    have "recordsAsWritten s1 (w(cid := (income, riskParameters s)))"
      using Cons.prems(1) Inr unfolding sr by (rule recordsAsWritten_assessRisk)
    then show ?thesis
      using Cons.IH Cons.prems(2) Inr by (simp add: item sr)
  qed
qed

lemma recordsAsWritten_events: "recordsAsWritten (s\<lparr>events := es\<rparr>) w = recordsAsWritten s w"
  by (simp add: recordsAsWritten_def)

lemma recordsAsWritten_transactWritten:
  assumes "recordsAsWritten s w" and "transactWritten tx (s, w) = (s', w')"
  shows "recordsAsWritten s' w'"
proof -
  obtain sender now c where tx: "tx = (sender, now, c)"
    by (cases tx)
  show ?thesis
  proof (cases c)
    case (AssessRisk age income cid)
    show ?thesis
    proof (cases "assessRisk now age income cid s")
      case (Inl e)
      then show ?thesis
        using assms by (simp add: transactWritten_def transact_def tx AssessRisk)
    next
      case (Inr sr)
      obtain s1 r where sr: "sr = (s1, r)"
        by (cases sr)
      have "recordsAsWritten s1 (w(cid := (income, riskParameters s)))"
        using assms(1) Inr unfolding sr by (rule recordsAsWritten_assessRisk)
      then show ?thesis
        using assms(2) Inr by (simp add: transactWritten_def transact_def tx AssessRisk sr)
    qed
  next
    case (BatchAssessRisk ages incomes cids)
    show ?thesis
    proof (cases "length ages = length incomes \<and> length incomes = length cids")
      case False
      then show ?thesis
        using assms
        by (auto simp: transactWritten_def transact_def tx BatchAssessRisk batchAssessRisk_def)
    next
      case True
      obtain s1 w1 where loop: "batchLoopWritten now (zip ages (zip incomes cids)) (s, w) = (s1, w1)"
        by (cases "batchLoopWritten now (zip ages (zip incomes cids)) (s, w)")
      have inv1: "recordsAsWritten s1 w1"
        using assms(1) loop by (rule recordsAsWritten_batchLoopWritten)
      have "fst (batchLoop now (zip ages (zip incomes cids)) (s, 0)) = s1"
        using fst_batchLoopWritten [of now "zip ages (zip incomes cids)" s w 0] loop by simp
      then show ?thesis
        using assms(2) True inv1 loop
        by (auto simp: transactWritten_def transact_def tx BatchAssessRisk batchAssessRisk_def
            recordsAsWritten_events split: prod.splits)
    qed
  next
    case (UpdateRiskParameters m t)
    then show ?thesis
      using assms
      by (auto simp: transactWritten_def transact_def tx updateRiskParameters_def
          recordsAsWritten_def split: if_splits)
  next
    case (TransferOwnership a)
    then show ?thesis
      using assms
      by (auto simp: transactWritten_def transact_def tx transferOwnership_def
          recordsAsWritten_def split: if_splits)
  qed
qed

lemma recordsAsWritten_runWritten:
  assumes "recordsAsWritten s w" and "runWritten txs (s, w) = (s', w')"
  shows "recordsAsWritten s' w'"
  using assms unfolding runWritten_def
proof (induction txs arbitrary: s w)
  case Nil
  then show ?case by simp
next
  case (Cons tx txs)
  obtain s1 w1 where step: "transactWritten tx (s, w) = (s1, w1)"
    by (cases "transactWritten tx (s, w)")
  have "recordsAsWritten s1 w1"
    using Cons.prems(1) step by (rule recordsAsWritten_transactWritten)
  then show ?case
    using Cons.IH Cons.prems(2) by (simp add: step)
qed

lemma fst_runWritten: "fst (runWritten txs (s, w)) = run txs s"
  unfolding runWritten_def run_def
proof (induction txs arbitrary: s w)
  case Nil
  then show ?case by simp
next
  case (Cons tx txs)
  obtain sender now c where tx: "tx = (sender, now, c)"
    by (cases tx)
  show ?case
    using Cons.IH by (simp add: tx transactWritten_def)
qed

lemma recordsAsWritten_initial: "recordsAsWritten (constructor sender) noneWritten"
  by (simp add: recordsAsWritten_def constructor_def zero_result_def)

text \<open>
  Claim C2, as the code has it. In every reachable state, every stored record satisfies
  the relation of the data model for the parameters in force when the record was written
  and the income argument of the assessment that wrote it: \<open>approved\<close> is the comparison
  of the score with that threshold, the credit limit is 0 when not approved, and
  otherwise \<open>floor(income / 12)\<close> times that multiplier. Every operation preserves this,
  \<^verbatim>\<open>updateRiskParameters\<close> included: it replaces the current parameters and rewrites no
  record.
\<close>

theorem stored_records_consistent_as_written:
  assumes "runWritten txs (constructor deployer, noneWritten) = (s, w)"
  shows "s = run txs (constructor deployer)
     \<and> (\<forall>cid. clientId (assessmentResults s cid) \<noteq> []
           \<longrightarrow> recordConsistent (snd (w cid)) (fst (w cid)) (assessmentResults s cid))"
proof -
  have "recordsAsWritten s w"
    using recordsAsWritten_initial assms by (rule recordsAsWritten_runWritten)
  moreover have "s = run txs (constructor deployer)"
    using fst_runWritten [of txs "constructor deployer" noneWritten] assms by simp
  ultimately show ?thesis
    by (simp add: recordsAsWritten_def)
qed


lemma example_call:
  "assessRisk 7 35 50000000000 ''client-1'' (constructor 1) =
     Inr ((constructor 1)\<lparr>assessmentResults := (assessmentResults (constructor 1))(''client-1'' :=
              \<lparr>creditLimit = 8333333332, riskScore = 85, approved = True,
               clientId = ''client-1'', timestamp = 7\<rparr>),
            allClientIds := [''client-1''],
            events := [AssessmentPerformed ''client-1'' 8333333332 85 True 7]\<rparr>,
          8333333332, 85, True)"
  by (simp add: assessRisk_def calculateRiskScore_total checked_mul_def Let_def constructor_def)

lemma example_run:
  "runWritten [(1, 7, AssessRisk 35 50000000000 ''client-1''), (1, 8, UpdateRiskParameters 2 90)]
      (constructor 1, noneWritten) =
   ((constructor 1)\<lparr>assessmentResults := (assessmentResults (constructor 1))(''client-1'' :=
              \<lparr>creditLimit = 8333333332, riskScore = 85, approved = True,
               clientId = ''client-1'', timestamp = 7\<rparr>),
            allClientIds := [''client-1''],
            events := [AssessmentPerformed ''client-1'' 8333333332 85 True 7, ParametersUpdated 8],
            riskParameters := \<lparr>incomeMultiplier = 2, riskThreshold = 90\<rparr>\<rparr>,
    noneWritten(''client-1'' := (50000000000, \<lparr>incomeMultiplier = 2, riskThreshold = 50\<rparr>)))"
  by (simp add: runWritten_def transactWritten_def transact_def example_call
      updateRiskParameters_def)
    (simp add: constructor_def)

theorem stored_records_consistent_as_written_witness:
  "clientId (assessmentResults (run [(1, 7, AssessRisk 35 50000000000 ''client-1''),
        (1, 8, UpdateRiskParameters 2 90)] (constructor 1)) ''client-1'') \<noteq> []
   \<and> recordConsistent \<lparr>incomeMultiplier = 2, riskThreshold = 50\<rparr> 50000000000
       (assessmentResults (run [(1, 7, AssessRisk 35 50000000000 ''client-1''),
          (1, 8, UpdateRiskParameters 2 90)] (constructor 1)) ''client-1'')"
proof -
  let ?txs = "[(1, 7, AssessRisk 35 50000000000 ''client-1''), (1, 8, UpdateRiskParameters 2 90)]"
  obtain S W where run: "runWritten ?txs (constructor 1, noneWritten) = (S, W)"
    by (cases "runWritten ?txs (constructor 1, noneWritten)")
  have W: "W ''client-1'' = (50000000000, \<lparr>incomeMultiplier = 2, riskThreshold = 50\<rparr>)"
    using run unfolding example_run by auto
  from stored_records_consistent_as_written [OF run]
  have S: "S = run ?txs (constructor 1)"
    and records: "\<forall>cid. clientId (assessmentResults S cid) \<noteq> []
           \<longrightarrow> recordConsistent (snd (W cid)) (fst (W cid)) (assessmentResults S cid)"
    by blast+
  from records have "clientId (assessmentResults S ''client-1'') \<noteq> []
      \<longrightarrow> recordConsistent (snd (W ''client-1'')) (fst (W ''client-1''))
            (assessmentResults S ''client-1'')"
    by (rule spec)
  moreover have "clientId (assessmentResults (run ?txs (constructor 1)) ''client-1'') = ''client-1''"
    by (simp add: run_def transact_def example_call updateRiskParameters_def)
  ultimately show ?thesis
    unfolding S W by simp
qed

theorem stored_records_current_parameters_counterexample:
  "approved (assessmentResults (run [(1, 7, AssessRisk 35 50000000000 ''client-1''),
        (1, 8, UpdateRiskParameters 2 90)] (constructor 1)) ''client-1'')
   \<noteq> (riskScore (assessmentResults (run [(1, 7, AssessRisk 35 50000000000 ''client-1''),
        (1, 8, UpdateRiskParameters 2 90)] (constructor 1)) ''client-1'')
      \<ge> riskThreshold (riskParameters (run [(1, 7, AssessRisk 35 50000000000 ''client-1''),
        (1, 8, UpdateRiskParameters 2 90)] (constructor 1))))"
  by (simp add: run_def transact_def example_call updateRiskParameters_def)
    (simp add: constructor_def)

section \<open>Batches\<close>

lemma assessRisk_rejected:
  "\<not> accepted (riskParameters s) (age, income, cid) \<Longrightarrow> \<exists>e. assessRisk now age income cid s = Inl e"
  by (simp add: assessRisk_fails_iff accepted_def)

lemma assessRisk_accepted:
  assumes "accepted (riskParameters s) (age, income, cid)"
  shows "\<exists>s'. assessRisk now age income cid s = Inr (s',
            creditLimit (resultRecord (riskParameters s) now age income cid),
            riskScore (resultRecord (riskParameters s) now age income cid),
            approved (resultRecord (riskParameters s) now age income cid))
      \<and> riskParameters s' = riskParameters s \<and> owner s' = owner s
      \<and> assessmentResults s' = (assessmentResults s)(cid :=
            resultRecord (riskParameters s) now age income cid)
      \<and> set (allClientIds s') = insert cid (set (allClientIds s))
      \<and> events s' = events s @ [assessmentEvent (riskParameters s) now (age, income, cid)]"
  using assms
  by (auto simp: assessRisk_Inr_iff accepted_def assessmentEvent_def)

lemma batchLoop_step_rejected:
  "\<not> accepted (riskParameters s) (age, income, cid) \<Longrightarrow>
     batchLoop now ((age, income, cid) # items) (s, n) = batchLoop now items (s, n)"
  using assessRisk_rejected [of s age income cid now] by auto

lemma batchLoop_append:
  "batchLoop now (xs @ ys) sn = batchLoop now ys (batchLoop now xs sn)"
proof (induction xs arbitrary: sn)
  case Nil
  then show ?case by (cases sn) simp
next
  case (Cons item xs)
  obtain age income cid where item: "item = (age, income, cid)"
    by (cases item)
  obtain s n where sn: "sn = (s, n)"
    by (cases sn)
  show ?case
    using Cons.IH by (auto simp: item sn split: sum.splits)
qed

text \<open>What the loop does, in one statement about its final state and counter.\<close>

lemma batchLoop_effect:
  assumes "batchLoop now items (s, n) = (s', n')"
  shows "n' = n + length (filter (accepted (riskParameters s)) items)
     \<and> riskParameters s' = riskParameters s \<and> owner s' = owner s
     \<and> events s' = events s @ map (assessmentEvent (riskParameters s) now)
                                  (filter (accepted (riskParameters s)) items)
     \<and> set (allClientIds s') = set (allClientIds s)
           \<union> (snd \<circ> snd) ` set (filter (accepted (riskParameters s)) items)
     \<and> (\<forall>cid. cid \<notin> (snd \<circ> snd) ` set (filter (accepted (riskParameters s)) items)
           \<longrightarrow> assessmentResults s' cid = assessmentResults s cid)"
  using assms
proof (induction items arbitrary: s n)
  case Nil
  then show ?case by simp
next
  case (Cons item items)
  obtain age income cid where item: "item = (age, income, cid)"
    by (cases item)
  show ?case
  proof (cases "accepted (riskParameters s) (age, income, cid)")
    case False
    then have "batchLoop now items (s, n) = (s', n')"
      using Cons.prems by (simp add: item batchLoop_step_rejected del: batchLoop.simps)
    from Cons.IH [OF this] show ?thesis
      using False by (simp add: item)
  next
    case True
    from assessRisk_accepted [OF True, of now]
    obtain s1 where call: "assessRisk now age income cid s = Inr (s1,
            creditLimit (resultRecord (riskParameters s) now age income cid),
            riskScore (resultRecord (riskParameters s) now age income cid),
            approved (resultRecord (riskParameters s) now age income cid))"
      and par: "riskParameters s1 = riskParameters s" and own: "owner s1 = owner s"
      and recs: "assessmentResults s1 = (assessmentResults s)(cid :=
            resultRecord (riskParameters s) now age income cid)"
      and ids: "set (allClientIds s1) = insert cid (set (allClientIds s))"
      and evs: "events s1 = events s @ [assessmentEvent (riskParameters s) now (age, income, cid)]"
      by blast
    have "batchLoop now items (s1, n + 1) = (s', n')"
      using Cons.prems call by (simp add: item)
    from Cons.IH [OF this] show ?thesis
      using True by (auto simp: item par own recs ids evs)
  qed
qed

lemma batchLoop_last_write:
  assumes "accepted (riskParameters s) (age, income, cid)"
    and "\<forall>item \<in> set ys. \<not> (accepted (riskParameters s) item \<and> snd (snd item) = cid)"
  shows "assessmentResults (fst (batchLoop now (xs @ (age, income, cid) # ys) (s, n))) cid
           = resultRecord (riskParameters s) now age income cid"
proof -
  obtain s1 n1 where before: "batchLoop now xs (s, n) = (s1, n1)"
    by (cases "batchLoop now xs (s, n)")
  then have par1: "riskParameters s1 = riskParameters s"
    using batchLoop_effect by blast
  from assessRisk_accepted [of s1 age income cid now] assms(1)
  obtain s2 r where call: "assessRisk now age income cid s1 = Inr (s2, r)"
    and par2: "riskParameters s2 = riskParameters s1"
    and recs: "assessmentResults s2 = (assessmentResults s1)(cid :=
            resultRecord (riskParameters s1) now age income cid)"
    unfolding par1 by blast
  obtain s3 n3 where rest: "batchLoop now ys (s2, Suc n1) = (s3, n3)"
    by (cases "batchLoop now ys (s2, Suc n1)")
  have "cid \<notin> (snd \<circ> snd) ` set (filter (accepted (riskParameters s2)) ys)"
    using assms(2) by (auto simp: par1 par2)
  then have "assessmentResults s3 cid = assessmentResults s2 cid"
    using batchLoop_effect [OF rest] by blast
  moreover have "batchLoop now (xs @ (age, income, cid) # ys) (s, n) = (s3, n3)"
    by (simp add: batchLoop_append before call rest)
  ultimately show ?thesis
    by (simp add: recs par1)
qed


lemma filter_all_but_one:
  assumes "k < length xs" and "\<not> P (xs ! k)"
    and "\<forall>i < length xs. i \<noteq> k \<longrightarrow> P (xs ! i)"
  shows "filter P xs = take k xs @ drop (Suc k) xs"
proof -
  have "\<forall>x \<in> set (take k xs). P x"
    using assms(1,3) by (auto simp: in_set_conv_nth)
  moreover have "\<forall>x \<in> set (drop (Suc k) xs). P x"
    using assms(1,3) by (auto simp: in_set_conv_nth)
  moreover have "xs = take k xs @ xs ! k # drop (Suc k) xs"
    using assms(1) by (rule id_take_nth_drop)
  then have "filter P xs = filter P (take k xs) @ filter P (xs ! k # drop (Suc k) xs)"
    by (metis filter_append)
  ultimately show ?thesis
    using assms(2) by simp
qed


lemma batchLoop_written:
  assumes "(age0, income0, cid) \<in> set items"
    and "accepted (riskParameters s) (age0, income0, cid)"
  shows "\<exists>age income. (age, income, cid) \<in> set items
      \<and> accepted (riskParameters s) (age, income, cid)
      \<and> assessmentResults (fst (batchLoop now items (s, n))) cid
           = resultRecord (riskParameters s) now age income cid"
proof -
  let ?P = "\<lambda>item. accepted (riskParameters s) item \<and> snd (snd item) = cid"
  have "\<exists>item \<in> set items. ?P item"
    using assms by force
  then obtain xs item ys where split: "items = xs @ item # ys" and item: "?P item"
    and later: "\<forall>y \<in> set ys. \<not> ?P y"
    by (rule split_list_last_propE)
  obtain age income where shape: "item = (age, income, cid)"
    using item by (cases item) auto
  have "assessmentResults (fst (batchLoop now (xs @ (age, income, cid) # ys) (s, n))) cid
      = resultRecord (riskParameters s) now age income cid"
    using item later unfolding shape by (intro batchLoop_last_write) auto
  then show ?thesis
    using item unfolding split shape by auto
qed


lemma zip3_nth:
  assumes "length ages = length cids" and "length incomes = length cids" and "i < length cids"
  shows "zip ages (zip incomes cids) ! i = (ages ! i, incomes ! i, cids ! i)"
  using assms by simp

lemma zip3_later:
  assumes "length ages = length cids" and "length incomes = length cids"
    and "item \<in> set (drop (Suc i) (zip ages (zip incomes cids)))"
  shows "\<exists>j < length cids. i < j \<and> item = (ages ! j, incomes ! j, cids ! j)"
proof -
  let ?items = "zip ages (zip incomes cids)"
  from assms(3) obtain m where m: "m < length (drop (Suc i) ?items)"
    and at: "drop (Suc i) ?items ! m = item"
    by (auto simp: in_set_conv_nth)
  have bound: "Suc i + m < length cids"
    using m assms(1,2) by simp
  then have "item = ?items ! (Suc i + m)"
    using at assms(1,2) by simp
  then have "item = (ages ! (Suc i + m), incomes ! (Suc i + m), cids ! (Suc i + m))"
    using bound assms(1,2) by simp
  then show ?thesis
    using bound by (intro exI [of _ "Suc i + m"]) simp
qed

text \<open>
  Claim C6, as the code has it. Take three arrays of one length \<open>N\<close> in which the index
  \<open>k\<close> has an empty client identifier and every other index has a non-empty one and a
  credit limit that fits in \<^verbatim>\<open>uint256\<close> under the current parameters. Then
  \<^verbatim>\<open>batchAssessRisk\<close> returns \<open>N - 1\<close>; every index other than \<open>k\<close> is in the index of
  clients and can be read back; the record of an index that no later index overwrites
  is the one computed from its own age and income; nothing is stored under the empty
  identifier; and the events are those of the indices other than \<open>k\<close>, in their order,
  followed by the event of the batch.
\<close>

theorem batch_skips_the_empty_id:
  assumes lengths: "length ages = N" "length incomes = N" "length cids = N"
    and k: "k < N" "cids ! k = []"
    and others: "\<forall>i < N. i \<noteq> k \<longrightarrow>
        cids ! i \<noteq> [] \<and> creditLimitFits (riskParameters s) (ages ! i) (incomes ! i)"
  shows "\<exists>s'. batchAssessRisk now ages incomes cids s = Inr (s', N - 1)
     \<and> (\<forall>i < N. i \<noteq> k \<longrightarrow>
          cids ! i \<in> set (getAllClientIds s') \<and> (\<exists>r. getAssessmentResult (cids ! i) s' = Inr r))
     \<and> (\<forall>i < N. i \<noteq> k \<longrightarrow> (\<forall>j < N. i < j \<longrightarrow> cids ! j \<noteq> cids ! i) \<longrightarrow>
          assessmentResults s' (cids ! i)
            = resultRecord (riskParameters s) now (ages ! i) (incomes ! i) (cids ! i))
     \<and> assessmentResults s' [] = assessmentResults s []
     \<and> events s' = events s
          @ map (assessmentEvent (riskParameters s) now)
              (take k (zip ages (zip incomes cids)) @ drop (Suc k) (zip ages (zip incomes cids)))
          @ [BatchAssessmentPerformed (N - 1) now]"
proof -
  let ?p = "riskParameters s"
  let ?items = "zip ages (zip incomes cids)"
  have len: "length ages = length cids" "length incomes = length cids" "length ?items = N"
    using lengths by simp_all
  have nth: "?items ! i = (ages ! i, incomes ! i, cids ! i)" if "i < N" for i
    using that lengths by simp
  have rejected: "\<not> accepted ?p (?items ! k)"
    using k by (simp add: nth accepted_def)
  have acc: "accepted ?p (?items ! i)" if "i < N" "i \<noteq> k" for i
    using that others by (simp add: nth accepted_def)
  have filtered: "filter (accepted ?p) ?items = take k ?items @ drop (Suc k) ?items"
  proof (rule filter_all_but_one)
    show "k < length ?items"
      using k(1) by (simp only: len(3))
    show "\<not> accepted ?p (?items ! k)"
      by (rule rejected)
    show "\<forall>i < length ?items. i \<noteq> k \<longrightarrow> accepted ?p (?items ! i)"
      unfolding len(3) using acc by blast
  qed
  have count: "length (filter (accepted ?p) ?items) = N - 1"
    unfolding filtered using k(1) len(3) by simp
  obtain sL nL where loop: "batchLoop now ?items (s, 0) = (sL, nL)"
    by (cases "batchLoop now ?items (s, 0)")
  note effect = batchLoop_effect [OF loop]
  have nL: "nL = N - 1"
    using effect count by simp
  let ?s' = "sL\<lparr>events := events sL @ [BatchAssessmentPerformed (N - 1) now]\<rparr>"
  have result: "batchAssessRisk now ages incomes cids s = Inr (?s', N - 1)"
    using lengths by (simp add: batchAssessRisk_def loop nL)
  have member: "?items ! i \<in> set (filter (accepted ?p) ?items)" if "i < N" "i \<noteq> k" for i
    using that acc [OF that] len(3) by simp
  have indexed: "cids ! i \<in> set (getAllClientIds ?s')" if "i < N" "i \<noteq> k" for i
  proof -
    have "(snd \<circ> snd) (?items ! i) \<in> (snd \<circ> snd) ` set (filter (accepted ?p) ?items)"
      using member [OF that] by (rule imageI)
    then show ?thesis
      using effect by (simp add: nth [OF that(1)] getAllClientIds_def)
  qed
  have readable: "\<exists>r. getAssessmentResult (cids ! i) ?s' = Inr r" if "i < N" "i \<noteq> k" for i
  proof -
    have "(ages ! i, incomes ! i, cids ! i) \<in> set ?items"
      using that(1) len(3) nth [OF that(1)] by (metis nth_mem)
    moreover have "accepted ?p (ages ! i, incomes ! i, cids ! i)"
      using acc [OF that] by (simp add: nth [OF that(1)])
    ultimately obtain age income where
      "assessmentResults (fst (batchLoop now ?items (s, 0))) (cids ! i)
         = resultRecord ?p now age income (cids ! i)"
      using batchLoop_written by blast
    then have "clientId (assessmentResults ?s' (cids ! i)) = cids ! i"
      by (simp add: loop resultRecord_def Let_def)
    moreover have "cids ! i \<noteq> []"
      using others that by simp
    ultimately show ?thesis
      by (simp add: getAssessmentResult_def Let_def)
  qed
  have own: "assessmentResults ?s' (cids ! i)
      = resultRecord ?p now (ages ! i) (incomes ! i) (cids ! i)"
    if "i < N" "i \<noteq> k" and last: "\<forall>j < N. i < j \<longrightarrow> cids ! j \<noteq> cids ! i" for i
  proof -
    have split: "?items = take i ?items @ (ages ! i, incomes ! i, cids ! i) # drop (Suc i) ?items"
    proof -
      have "i < length ?items"
        using that(1) by (simp only: len(3))
      then have "?items = take i ?items @ ?items ! i # drop (Suc i) ?items"
        by (rule id_take_nth_drop)
      then show ?thesis
        by (simp only: nth [OF that(1)])
    qed
    have later: "\<forall>item \<in> set (drop (Suc i) ?items).
        \<not> (accepted ?p item \<and> snd (snd item) = cids ! i)"
    proof
      fix item
      assume "item \<in> set (drop (Suc i) ?items)"
      then obtain j where "j < length cids" "i < j" "item = (ages ! j, incomes ! j, cids ! j)"
        using zip3_later [OF len(1,2)] by blast
      then show "\<not> (accepted ?p item \<and> snd (snd item) = cids ! i)"
        using last lengths(3) by simp
    qed
    have "accepted ?p (ages ! i, incomes ! i, cids ! i)"
      using acc [OF that(1,2)] by (simp add: nth [OF that(1)])
    then have "assessmentResults (fst (batchLoop now
          (take i ?items @ (ages ! i, incomes ! i, cids ! i) # drop (Suc i) ?items) (s, 0))) (cids ! i)
        = resultRecord ?p now (ages ! i) (incomes ! i) (cids ! i)"
      using later by (rule batchLoop_last_write)
    then have "assessmentResults (fst (batchLoop now ?items (s, 0))) (cids ! i)
        = resultRecord ?p now (ages ! i) (incomes ! i) (cids ! i)"
      using split by simp
    then show ?thesis
      by (simp add: loop)
  qed
  have "[] \<notin> (snd \<circ> snd) ` set (filter (accepted ?p) ?items)"
    by (auto simp: accepted_def)
  then have skipped: "assessmentResults ?s' [] = assessmentResults s []"
    using effect by simp
  have logged: "events ?s' = events s
      @ map (assessmentEvent ?p now) (take k ?items @ drop (Suc k) ?items)
      @ [BatchAssessmentPerformed (N - 1) now]"
    using effect by (simp add: filtered)
  show ?thesis
    using result indexed readable own skipped logged
    by (intro exI [of _ ?s'] conjI allI impI) blast+
qed


theorem batch_skips_the_empty_id_witness:
  "\<exists>s'. batchAssessRisk 9 [35, 0, 41] [50000000000, 0, 0] [''a'', [], ''b''] (constructor 1) = Inr (s', 2)
     \<and> getAllClientIds s' = [''a'', ''b'']
     \<and> assessmentResults s' ''a'' = \<lparr>creditLimit = 8333333332, riskScore = 85, approved = True,
          clientId = ''a'', timestamp = 9\<rparr>
     \<and> assessmentResults s' ''b'' = \<lparr>creditLimit = 0, riskScore = 40, approved = False,
          clientId = ''b'', timestamp = 9\<rparr>"
proof -
  let ?ages = "[35, 0, 41] :: uint256 list"
  let ?incomes = "[50000000000, 0, 0] :: uint256 list"
  let ?cids = "[''a'', [], ''b'']"
  have par: "riskParameters (constructor 1) = \<lparr>incomeMultiplier = 2, riskThreshold = 50\<rparr>"
    by (simp add: constructor_def)
  have fits: "creditLimitFits (riskParameters (constructor 1)) age income" for age income
    by (rule creditLimitFits_small) (simp add: par)
  have others: "\<forall>i < 3. i \<noteq> 1 \<longrightarrow>
      ?cids ! i \<noteq> [] \<and> creditLimitFits (riskParameters (constructor 1)) (?ages ! i) (?incomes ! i)"
    by (simp add: fits nth_Cons')
  from batch_skips_the_empty_id [of ?ages 3 ?incomes ?cids 1 "constructor 1" 9, OF _ _ _ _ _ others]
  obtain s' where result: "batchAssessRisk 9 ?ages ?incomes ?cids (constructor 1) = Inr (s', 2)"
    and own: "\<forall>i < 3. i \<noteq> 1 \<longrightarrow> (\<forall>j < 3. i < j \<longrightarrow> ?cids ! j \<noteq> ?cids ! i) \<longrightarrow>
          assessmentResults s' (?cids ! i)
            = resultRecord (riskParameters (constructor 1)) 9 (?ages ! i) (?incomes ! i) (?cids ! i)"
    by auto
  have last: "\<forall>j < 3. (0::nat) < j \<longrightarrow> ?cids ! j \<noteq> ?cids ! 0"
    by (auto simp: less_Suc_eq numeral_3_eq_3)
  have a: "assessmentResults s' ''a''
      = resultRecord (riskParameters (constructor 1)) 9 35 50000000000 ''a''"
    using own [THEN spec, of 0, THEN mp, THEN mp, THEN mp, OF _ _ last] by simp
  have b: "assessmentResults s' ''b'' = resultRecord (riskParameters (constructor 1)) 9 41 0 ''b''"
    using own [rule_format, of 2] by simp
  have ids: "getAllClientIds s' = [''a'', ''b'']"
    using result
    by (simp add: batchAssessRisk_def assessRisk_def calculateRiskScore_total checked_mul_def
        Let_def constructor_def getAllClientIds_def split: prod.splits) auto
  show ?thesis
    using result a b ids by (intro exI [of _ s']) (simp add: resultRecord_def par)
qed

theorem batch_overflow_counterexample:
  "returned (batchAssessRisk 9 [0, 0] [24, 0] [''a'', []]
      (run [(1, 8, UpdateRiskParameters (2 ^ 255) 0)] (constructor 1))) = Inr 0
   \<and> getAssessmentResult ''a'' (transact (1, 9, BatchAssessRisk [0, 0] [24, 0] [''a'', []])
        (run [(1, 8, UpdateRiskParameters (2 ^ 255) 0)] (constructor 1))) = Inl NotFound"
  by (simp add: run_def transact_def updateRiskParameters_def constructor_def
      batchAssessRisk_def assessRisk_def calculateRiskScore_total checked_mul_def Let_def
      returned_def getAssessmentResult_def NotFound_def zero_result_def)

section \<open>The confidential path against the plain path\<close>

lemma unat_decrypt: "unat (decrypt x) = unat x"
proof -
  have "unat x < 2 ^ 32"
    using unsigned_less [of x, where 'a = nat] by simp
  then have "unat x < 2 ^ 256"
    by (rule less_trans) simp
  then show ?thesis
    by (simp add: decrypt_def unsigned_ucast_eq take_bit_nat_eq_self)
qed

lemma decrypt_eq_iff: "decrypt a = decrypt b \<longleftrightarrow> a = b"
  by (simp add: word_unat_eq_iff unat_decrypt)

lemma decrypt_le_iff: "decrypt a \<le> decrypt b \<longleftrightarrow> a \<le> b"
  by (simp add: word_le_nat_alt unat_decrypt)

lemma decrypt_less_iff: "decrypt a < decrypt b \<longleftrightarrow> a < b"
  by (simp add: word_less_nat_alt unat_decrypt)

lemma decrypt_consts:
  "decrypt 40 = 40" "decrypt 60 = 60" "decrypt 1000 = 1000" "decrypt 12 = 12"
  "decrypt 1000000 = 1000000"
  by (simp_all add: decrypt_def)

lemma decrypt_0: "decrypt 0 = 0"
  by (simp add: decrypt_def)

lemma decrypt_div: "decrypt (a div b) = decrypt a div decrypt b"
  by (simp add: word_unat_eq_iff unat_decrypt unat_div)

lemma decrypt_min: "decrypt (min a b) = min (decrypt a) (decrypt b)"
  by (simp add: min_def decrypt_le_iff)

lemma decrypt_add:
  assumes "unat a + unat b < 2 ^ 32"
  shows "decrypt (a + b) = decrypt a + decrypt b"
proof -
  have "unat a + unat b < 2 ^ LENGTH(32)"
    using assms by simp
  then have l: "unat (a + b) = unat a + unat b"
    by (simp only: unat_add_lem)
  have "unat a + unat b < 2 ^ 256"
    using assms by (rule less_trans) simp
  then have "unat (decrypt a) + unat (decrypt b) < 2 ^ LENGTH(256)"
    by (simp add: unat_decrypt)
  then have "unat (decrypt a + decrypt b) = unat (decrypt a) + unat (decrypt b)"
    by (simp only: unat_add_lem)
  then show ?thesis
    using l by (simp add: word_unat_eq_iff unat_decrypt)
qed

lemma decrypt_mult:
  assumes "unat a * unat b < 2 ^ 32"
  shows "decrypt (a * b) = decrypt a * decrypt b"
proof -
  have "unat a * unat b < 2 ^ LENGTH(32)"
    using assms by simp
  then have l: "unat (a * b) = unat a * unat b"
    by (simp only: unat_mult_lem)
  have "unat a * unat b < 2 ^ 256"
    using assms by (rule less_trans) simp
  then have "unat (decrypt a) * unat (decrypt b) < 2 ^ LENGTH(256)"
    by (simp add: unat_decrypt)
  then have "unat (decrypt a * decrypt b) = unat (decrypt a) * unat (decrypt b)"
    by (simp only: unat_mult_lem)
  then show ?thesis
    using l by (simp add: word_unat_eq_iff unat_decrypt)
qed

lemma encrypted_age_times_40:
  assumes "\<not> 40 < (age::euint32)"
  shows "(age * 40) div 40 = age"
proof -
  from assms have "unat age \<le> 40"
    by (simp add: not_less word_le_nat_alt)
  then have "unat age * unat (40::euint32) < 2 ^ LENGTH(32)"
    by simp
  then have "unat (age * 40) = unat age * 40"
    by (simp add: unat_mult_lem [THEN iffD1])
  then have "unat ((age * 40) div 40) = unat age"
    by (simp add: unat_div)
  then show ?thesis
    by (simp add: word_unat_eq_iff)
qed

lemma calculateEncryptedRiskScore_min:
  "calculateEncryptedRiskScore age income = min age 40 + min (income div 10 ^ 6 div 1000) 60"
  by (auto simp: calculateEncryptedRiskScore_def Let_def FHE_cmux_def FHE_gt_def FHE_div_def
      FHE_mul_def FHE_add_def FHE_asEuint32_def encrypted_age_times_40 min_def)

lemma decrypt_score:
  "decrypt (calculateEncryptedRiskScore age income)
     = min (decrypt age) 40 + min (decrypt income div 10 ^ 6 div 1000) 60"
proof -
  have "unat (min age 40) \<le> 40" and "unat (min (income div 10 ^ 6 div 1000) 60) \<le> 60"
    by (simp_all add: min_def word_le_nat_alt)
  then have "unat (min age 40) + unat (min (income div 10 ^ 6 div 1000) 60) \<le> 100"
    by linarith
  then have "unat (min age 40) + unat (min (income div 10 ^ 6 div 1000) 60) < 2 ^ 32"
    by (rule le_less_trans) simp
  then have "decrypt (min age 40 + min (income div 10 ^ 6 div 1000) 60)
      = decrypt (min age 40) + decrypt (min (income div 10 ^ 6 div 1000) 60)"
    by (rule decrypt_add)
  then show ?thesis
    by (simp add: calculateEncryptedRiskScore_min decrypt_min decrypt_div decrypt_consts)
qed


lemma decryptState_assessment:
  "decryptState
     (s\<lparr>encryptedAssessments := (encryptedAssessments s)(cid :=
           \<lparr>encCreditLimit = l, encRiskScore = sc, encApproved = ok,
            encClientId = cid, encTimestamp = now\<rparr>),
         fheAllClientIds := ids,
         fheEvents := fheEvents s @ [EncAssessmentPerformed cid l sc ok now]\<rparr>)
   = (decryptState s)
       \<lparr>assessmentResults := (assessmentResults (decryptState s))(cid :=
           \<lparr>creditLimit = decrypt l, riskScore = decrypt sc, approved = ok,
            clientId = cid, timestamp = now\<rparr>),
        allClientIds := ids,
        events := events (decryptState s) @ [AssessmentPerformed cid (decrypt l) (decrypt sc) ok now]\<rparr>"
  by (simp add: decryptState_def decryptAssessment_def fun_eq_iff)

lemma assessRiskEncrypted_result:
  assumes "cid \<noteq> []"
  shows "assessRiskEncrypted now age income cid s =
     (let sc = calculateEncryptedRiskScore age income;
          ok = (encRiskThreshold (fheRiskParameters s) < sc);
          l = (if ok then (income div 12) * encIncomeMultiplier (fheRiskParameters s) else 0)
      in Inr (s\<lparr>encryptedAssessments := (encryptedAssessments s)(cid :=
                   \<lparr>encCreditLimit = l, encRiskScore = sc, encApproved = ok,
                    encClientId = cid, encTimestamp = now\<rparr>),
                 fheAllClientIds := (if cid \<in> set (fheAllClientIds s) then fheAllClientIds s
                                     else fheAllClientIds s @ [cid]),
                 fheEvents := fheEvents s @ [EncAssessmentPerformed cid l sc ok now]\<rparr>,
              l, sc, ok))"
  using assms
  by (simp add: assessRiskEncrypted_def Let_def FHE_gt_def FHE_cmux_def FHE_mul_def FHE_div_def
      FHE_asEuint32_def FHE_sealoutput_def clientIdExists_iff)

text \<open>
  Away from the threshold the two paths agree. Take 32-bit age, income and parameters,
  the values both contracts can be given. The decrypted score of the confidential path
  is always the score of the plain path. When the score differs from the threshold and,
  for an approved client, the monthly income times the multiplier is below \<open>2^32\<close>,
  the plain call on the decrypted state and inputs gives exactly the decrypted outcome
  of the confidential call: the same failure, or the same returned triple, stored
  record, index and event.
\<close>

lemma confidential_matches_plain_off_threshold:
  assumes "calculateEncryptedRiskScore age income \<noteq> encRiskThreshold (fheRiskParameters s)"
    and "encRiskThreshold (fheRiskParameters s) < calculateEncryptedRiskScore age income \<longrightarrow>
      unat (income div 12) * unat (encIncomeMultiplier (fheRiskParameters s)) < 2 ^ 32"
  shows "calculateRiskScore (decrypt age) (decrypt income)
           = Inr (decrypt (calculateEncryptedRiskScore age income))
     \<and> assessRisk now (decrypt age) (decrypt income) cid (decryptState s)
           = decryptOutcome (assessRiskEncrypted now age income cid s)"
proof -
  let ?sc = "calculateEncryptedRiskScore age income"
  let ?thr = "encRiskThreshold (fheRiskParameters s)"
  let ?mul = "encIncomeMultiplier (fheRiskParameters s)"
  have score: "calculateRiskScore (decrypt age) (decrypt income) = Inr (decrypt ?sc)"
    by (simp add: calculateRiskScore_total decrypt_score)
  have par: "riskThreshold (riskParameters (decryptState s)) = decrypt ?thr"
    "incomeMultiplier (riskParameters (decryptState s)) = decrypt ?mul"
    by (simp_all add: decryptState_def decryptParameters_def)
  have ok: "(decrypt ?thr \<le> decrypt ?sc) = (?thr < ?sc)"
    using assms(1) by (auto simp: decrypt_le_iff)
  have ids: "allClientIds (decryptState s) = fheAllClientIds s"
    by (simp add: decryptState_def)
  have call: "assessRisk now (decrypt age) (decrypt income) cid (decryptState s)
           = decryptOutcome (assessRiskEncrypted now age income cid s)"
  proof (cases "cid = []")
    case True
    then show ?thesis
      by (simp add: assessRisk_def assessRiskEncrypted_def decryptOutcome_def)
  next
    case nonempty: False
    show ?thesis
    proof (cases "?thr < ?sc")
      case True
      with assms(2) have small: "unat (income div 12) * unat ?mul < 2 ^ 32"
        by simp
      then have prod: "decrypt ((income div 12) * ?mul) = (decrypt income div 12) * decrypt ?mul"
        by (simp add: decrypt_mult decrypt_div decrypt_consts)
      have "unat (income div 12) * unat ?mul < 2 ^ 256"
        using small by (rule less_trans) simp
      then have "unat (decrypt income div 12) * unat (decrypt ?mul) < 2 ^ 256"
        by (simp add: unat_decrypt unat_div)
      then have mul: "checked_mul (decrypt income div 12) (decrypt ?mul)
          = Inr (decrypt ((income div 12) * ?mul))"
        by (simp add: checked_mul_def prod)
      show ?thesis
        using nonempty True
        by (simp add: assessRisk_def score par ok mul Let_def assessRiskEncrypted_result
            decryptOutcome_def decryptState_assessment clientIdExists_iff ids)
    next
      case False
      show ?thesis
        using nonempty False
        by (simp add: assessRisk_def score par ok Let_def assessRiskEncrypted_result
            decryptOutcome_def decryptState_assessment clientIdExists_iff ids decrypt_0)
    qed
  qed
  show ?thesis
    using score call by simp
qed


lemma assessRiskEncrypted_eval:
  "cid \<noteq> [] \<Longrightarrow> returned (decryptOutcome (assessRiskEncrypted now age income cid s)) =
     Inr (decrypt (if encRiskThreshold (fheRiskParameters s) < calculateEncryptedRiskScore age income
                   then (income div 12) * encIncomeMultiplier (fheRiskParameters s) else 0),
          decrypt (calculateEncryptedRiskScore age income),
          encRiskThreshold (fheRiskParameters s) < calculateEncryptedRiskScore age income)"
  by (simp add: assessRiskEncrypted_result Let_def decryptOutcome_def returned_def)

text \<open>
  The confidential path holds its values in 32 bits. With the multiplier \<open>2^31\<close> and the
  threshold 0, the income 24 gives the plain credit limit \<open>2^32\<close>, which no 32-bit value
  decrypts to.
\<close>

lemma confidential_width_example:
  "returned (assessRisk 9 (decrypt 1) (decrypt 24) ''a''
        (decryptState (projr (updateRiskParametersEncrypted 1 8 2147483648 0 (constructorFHE 1)))))
       = Inr (4294967296, 1, True)
   \<and> returned (decryptOutcome (assessRiskEncrypted 9 1 24 ''a''
        (projr (updateRiskParametersEncrypted 1 8 2147483648 0 (constructorFHE 1)))))
       = Inr (0, 1, True)"
proof -
  have "returned (assessRisk 9 (decrypt 1) (decrypt 24) ''a''
        (decryptState (projr (updateRiskParametersEncrypted 1 8 2147483648 0 (constructorFHE 1)))))
       = Inr (4294967296, 1, True)"
    by (simp add: updateRiskParametersEncrypted_def constructorFHE_def decryptState_def
        decryptParameters_def decrypt_def assessRisk_def calculateRiskScore_total checked_mul_def
        Let_def returned_def)
  moreover have "returned (decryptOutcome (assessRiskEncrypted 9 1 24 ''a''
        (projr (updateRiskParametersEncrypted 1 8 2147483648 0 (constructorFHE 1)))))
       = Inr (0, 1, True)"
    by (simp add: assessRiskEncrypted_eval calculateEncryptedRiskScore_min
        updateRiskParametersEncrypted_def constructorFHE_def decrypt_def)
  ultimately show ?thesis
    by (simp only: simp_thms)
qed

lemma plain_product_fits:
  "unat (decrypt (income :: euint32) div 12) * unat (decrypt (m :: euint32)) < 2 ^ 256"
proof -
  have a: "unat (decrypt income div 12) \<le> unat income"
    by (simp add: unat_div unat_decrypt)
  have "unat income < 2 ^ 32" and "unat m < 2 ^ 32"
    using unsigned_less [of income, where 'a = nat] unsigned_less [of m, where 'a = nat]
    by simp_all
  then have "unat (decrypt income div 12) * unat (decrypt m) < 2 ^ 32 * 2 ^ 32"
    using a by (intro mult_strict_mono) (simp_all add: unat_decrypt)
  also have "(2::nat) ^ 32 * 2 ^ 32 < 2 ^ 256"
    by simp
  finally show ?thesis .
qed

text \<open>
  At a score equal to the threshold the two paths never agree on a non-empty client
  identifier: \<^verbatim>\<open>assessRisk\<close> compares with \<open>\<ge>\<close> and approves, with the monthly income
  times the multiplier as credit limit; \<^verbatim>\<open>assessRiskEncrypted\<close> compares with the strict
  \<^verbatim>\<open>FHE.gt\<close> and returns not approved and the credit limit 0.
\<close>

lemma threshold_case_differs:
  assumes "calculateEncryptedRiskScore age income = encRiskThreshold (fheRiskParameters s)"
    and "cid \<noteq> []"
  shows "returned (assessRisk now (decrypt age) (decrypt income) cid (decryptState s))
           = Inr ((decrypt income div 12) * decrypt (encIncomeMultiplier (fheRiskParameters s)),
                  decrypt (calculateEncryptedRiskScore age income), True)
     \<and> returned (decryptOutcome (assessRiskEncrypted now age income cid s))
           = Inr (0, decrypt (calculateEncryptedRiskScore age income), False)"
proof -
  have score: "calculateRiskScore (decrypt age) (decrypt income)
      = Inr (decrypt (calculateEncryptedRiskScore age income))"
    by (simp add: calculateRiskScore_total decrypt_score)
  have par: "riskThreshold (riskParameters (decryptState s))
        = decrypt (encRiskThreshold (fheRiskParameters s))"
    "incomeMultiplier (riskParameters (decryptState s))
        = decrypt (encIncomeMultiplier (fheRiskParameters s))"
    by (simp_all add: decryptState_def decryptParameters_def)
  have mul: "checked_mul (decrypt income div 12) (decrypt (encIncomeMultiplier (fheRiskParameters s)))
      = Inr ((decrypt income div 12) * decrypt (encIncomeMultiplier (fheRiskParameters s)))"
    using plain_product_fits [of income "encIncomeMultiplier (fheRiskParameters s)"]
    by (simp only: checked_mul_def if_True)
  have plain: "returned (assessRisk now (decrypt age) (decrypt income) cid (decryptState s))
           = Inr ((decrypt income div 12) * decrypt (encIncomeMultiplier (fheRiskParameters s)),
                  decrypt (calculateEncryptedRiskScore age income), True)"
    using assms
    by (simp add: assessRisk_def score par mul Let_def returned_def)
  have enc: "returned (decryptOutcome (assessRiskEncrypted now age income cid s))
           = Inr (0, decrypt (calculateEncryptedRiskScore age income), False)"
    using assms by (simp add: assessRiskEncrypted_eval decrypt_0)
  show ?thesis
    using plain enc by simp
qed

text \<open>
  Claim C1. The plain and the confidential path are to give the same results once the
  confidential outputs are decrypted, in particular the same approval at a score equal
  to the threshold. They do not: after the owner has set the multiplier 2 and the
  threshold 40, the age 40 and the income 12000000 give the score 40 on both paths; the
  plain path returns the credit limit 2000000 and approved, the confidential path
  returns the credit limit 0 and not approved.
\<close>

theorem confidential_threshold_divergence:
  "returned (assessRisk 9 (decrypt 40) (decrypt 12000000) ''a''
        (decryptState (projr (updateRiskParametersEncrypted 1 8 2 40 (constructorFHE 1)))))
       = Inr (2000000, 40, True)
   \<and> returned (decryptOutcome (assessRiskEncrypted 9 40 12000000 ''a''
        (projr (updateRiskParametersEncrypted 1 8 2 40 (constructorFHE 1)))))
       = Inr (0, 40, False)"
proof -
  have "returned (assessRisk 9 (decrypt 40) (decrypt 12000000) ''a''
        (decryptState (projr (updateRiskParametersEncrypted 1 8 2 40 (constructorFHE 1)))))
       = Inr (2000000, 40, True)"
    by (simp add: updateRiskParametersEncrypted_def constructorFHE_def decryptState_def
        decryptParameters_def decrypt_def assessRisk_def calculateRiskScore_total checked_mul_def
        Let_def returned_def)
  moreover have "returned (decryptOutcome (assessRiskEncrypted 9 40 12000000 ''a''
        (projr (updateRiskParametersEncrypted 1 8 2 40 (constructorFHE 1)))))
       = Inr (0, 40, False)"
    by (simp add: assessRiskEncrypted_eval calculateEncryptedRiskScore_min
        updateRiskParametersEncrypted_def constructorFHE_def decrypt_def)
  ultimately show ?thesis
    by (simp only: simp_thms)
qed

end
